theory Spec2Isabelle
  imports Complex_Main
begin

section \<open>The remote-rendering widget of ipyvtk\_simple/viewer.py\<close>

text \<open>
  The theory embeds class \<open>ViewInteractiveWidget\<close>. Conventions of the embedding:
  \<^item> Python floats and ints are exact reals and integers (no rounding error, no NaN),
    except in the rescaling of the offsets (lines 305-308), which is computed in doubles
    as Python computes it.
  \<^item> The attributes of the widget are the fields of the record \<open>session\<close>; a method
    takes the session and returns a \<open>result\<close>: the session it leaves behind, and
    the exception when one propagates out of the method.
  \<^item> Everything outside the class (the VTK render window and its interactor, PIL, the
    widget base class, the clean-up callback, the wall clock) is the record \<open>world\<close>.
    A call to a collaborator is appended to \<open>trace\<close>; whether it raises is decided by
    the oracle \<open>faults\<close>, so that a theorem about all worlds covers every failure of a
    collaborator. \<open>time.time()\<close> reads \<open>clock\<close> at \<open>ticks\<close> and advances \<open>ticks\<close>.
\<close>

subsection \<open>Exceptions\<close>

datatype exn =
    ValueError string
  | RuntimeError string
  | KeyError string
  | IndexError string
  | TypeError string
  | ZeroDivisionError string
  | OverflowError string
  | Fault string

text \<open>\<open>str(e)\<close>: the message; a \<open>KeyError\<close> prints the repr of the missing key.\<close>

fun str :: "exn \<Rightarrow> string" where
  "str (ValueError m) = m"
| "str (RuntimeError m) = m"
| "str (KeyError k) = CHR 0x27 # k @ [CHR 0x27]"
| "str (IndexError m) = m"
| "str (TypeError m) = m"
| "str (ZeroDivisionError m) = m"
| "str (OverflowError m) = m"
| "str (Fault m) = m"

subsection \<open>Collaborators\<close>

text \<open>
  The calls the widget makes on its collaborators, under the names of the source.
  \<open>self.interactor.X()\<close> is \<open>self.render\_window.GetInteractor().X()\<close>; it is recorded as
  the single action \<open>X\<close>. \<open>EncodeJPEG alpha q\<close> is
  \<open>PIL.Image.fromarray(raw\_img).save(f, 'JPEG', quality=q)\<close>, where \<open>alpha\<close> tells whether
  the alpha channel was kept; \<open>DrawImage w h\<close> is \<open>self.draw\_image(Image(..., width=w, height=h))\<close>;
  \<open>CanvasInit\<close> and \<open>CanvasClose\<close> are \<open>super().\_\_init\_\_\<close> and \<open>super().close\<close>;
  \<open>OnClose\<close> is \<open>self.\_on\_close()\<close>.
  The calls of the constructor on the widget framework: \<open>SetLayoutWidth\<close>,
  \<open>SetLayoutHeight\<close> (lines 76-77), \<open>EventInit\<close> (\<open>Event()\<close>, line 90), the
  assignments to the traits of that \<open>Event\<close> (lines 93-95, 115, 118), \<open>OnDomEvent\<close>
  (line 119) and the registrations \<open>OnTouchStart\<close>, \<open>OnTouchEnd\<close>, \<open>OnTouchMove\<close>
  (lines 138-140).
  \<open>FullRenderRequested\<close> and \<open>QuickRenderRequested\<close> are no calls: they mark in the
  trace that \<open>full\_render()\<close> or \<open>quick\_render()\<close> was invoked (before the rate limit
  decides whether its body runs), and cannot fail.
\<close>

datatype action =
    CanvasInit
  | CanvasClose
  | OnClose
  | SetOffScreenRendering int
  | GetSize
  | Render
  | GetRGBACharPixelData int int int int int
  | EncodeJPEG bool real
  | DrawImage int int
  | SetKeySym string
  | SetKeyCode string
  | SetRepeatCount int
  | SetEventPosition real real
  | SetShiftKey bool
  | SetControlKey bool
  | SetAltKey bool
  | MouseMoveEvent
  | EnterEvent
  | LeaveEvent
  | LeftButtonPressEvent
  | RightButtonPressEvent
  | MiddleButtonPressEvent
  | LeftButtonReleaseEvent
  | RightButtonReleaseEvent
  | MiddleButtonReleaseEvent
  | KeyPressEvent
  | CharEvent
  | KeyReleaseEvent
  | MouseWheelForwardEvent
  | MouseWheelBackwardEvent
  | SetLayoutWidth string
  | SetLayoutHeight string
  | EventInit
  | SetThrottleOrDebounce string
  | SetWait int
  | SetSource
  | SetWatchedEvents "string list"
  | SetPreventDefaultAction bool
  | OnDomEvent
  | OnTouchStart
  | OnTouchEnd
  | OnTouchMove
  | FullRenderRequested
  | QuickRenderRequested

record world =
  rw_alive :: bool
  rw_size :: "int \<times> int"
  clock :: "nat \<Rightarrow> real"
  ticks :: nat
  faults :: "nat \<Rightarrow> exn option"
  trace :: "action list"
  full_render_last_call :: real
  quick_render_last_call :: real
  KEY_TO_SYM :: "(string \<times> string) list"
  INTERACTION_THROTTLE :: int

text \<open>
  \<open>rw\_alive\<close>: the weak reference \<open>self.\_render\_window()\<close> still resolves.
  \<open>rw\_size\<close>: what \<open>GetSize()\<close> returns.
  \<open>faults w n\<close>: the exception raised by the collaborator call made when the trace has
  length \<open>n\<close>, if any.
  \<open>full\_render\_last\_call\<close>, \<open>quick\_render\_last\_call\<close>: the state of the two
  \<open>throttle\<close> decorators.
  \<open>KEY\_TO\_SYM\<close>, \<open>INTERACTION\_THROTTLE\<close>: the table and the constant of
  constants.py, which is not among the sources; they are parameters of the model.
\<close>

subsection \<open>Events and the session\<close>

text \<open>
  A DOM event is a Python dict; a key that may be absent is an optional field, and reading
  an absent key raises \<open>KeyError\<close>.
  The size of the bounding rectangle is a Python number with its type, an \<open>int\<close> or a
  \<open>float\<close> (a finite double, given by the real it denotes): line 305 and line 307
  divide by it, and the division of an \<open>int\<close> by an \<open>int\<close> differs from the division
  by a \<open>float\<close> in its rounding and in its errors. The other numbers of an event are given
  by their value.
\<close>

datatype number = PyInt int | PyFloat real

record dom_event =
  event_name :: string
  touch_event :: "bool option"
  offsetX :: "real option"
  offsetY :: "real option"
  button :: "int option"
  key :: "string option"
  shiftKey :: "bool option"
  ctrlKey :: "bool option"
  altKey :: "bool option"
  deltaY :: "real option"
  timeStamp :: "real option"
  boundingRectWidth :: "number option"
  boundingRectHeight :: "number option"

text \<open>
  The attributes of the widget (a leading underscore of the source is dropped).
  \<open>quick\_render\_delay\_sec\_range\<close> is the two-element list \<open>[lo, hi]\<close>, as a pair.
\<close>

record session =
  env :: world
  quality :: real
  transparent_background :: bool
  touching :: bool
  last_touch :: real
  last_render_time :: real
  quick_render_delay_sec :: real
  quick_render_delay_sec_range :: "real \<times> real"
  adaptive_render_delay :: bool
  last_mouse_move_event :: "dom_event option"
  has_moved :: bool
  track_mouse_move :: bool
  message_timestamp_offset :: "real option"
  width :: int
  height :: int
  first_render_time :: real
  dragging :: bool
  watched_events :: "string list"
  error :: "string option"
  log_events :: bool
  logged_events :: "dom_event list"
  elapsed_times :: "real list"
  age_of_processed_messages :: "(real \<times> real) list"
  stuff :: "(real \<times> real) list"

datatype result = Done session | Raised exn session

fun state_of :: "result \<Rightarrow> session" where
  "state_of (Done s) = s"
| "state_of (Raised e s) = s"

text \<open>Statements in sequence: the first exception ends the sequence.\<close>

primrec seq :: "(session \<Rightarrow> result) list \<Rightarrow> session \<Rightarrow> result" where
  "seq [] s = Done s"
| "seq (f # fs) s = (case f s of Done s' \<Rightarrow> seq fs s' | Raised e s' \<Rightarrow> Raised e s')"

text \<open>\<open>try: body except Exception as e: self.error = str(e)\<close>\<close>

definition try_except :: "(session \<Rightarrow> result) \<Rightarrow> session \<Rightarrow> result" where
  "try_except body s =
     (case body s of
        Done s' \<Rightarrow> Done s'
      | Raised e s' \<Rightarrow> Done (s'\<lparr>error := Some (str e)\<rparr>))"

subsection \<open>Primitives of the world\<close>

text \<open>\<open>time.time()\<close>: \<open>now\<close> is the reading, \<open>tick\<close> the session after it.\<close>

definition now :: "session \<Rightarrow> real" where
  "now s = clock (env s) (ticks (env s))"

definition tick :: "session \<Rightarrow> session" where
  "tick s = s\<lparr>env := (env s)\<lparr>ticks := Suc (ticks (env s))\<rparr>\<rparr>"

definition mark :: "action \<Rightarrow> session \<Rightarrow> session" where
  "mark a s = s\<lparr>env := (env s)\<lparr>trace := trace (env s) @ [a]\<rparr>\<rparr>"

definition ext_call :: "action \<Rightarrow> session \<Rightarrow> result" where
  "ext_call a s =
     (case faults (env s) (length (trace (env s))) of
        None \<Rightarrow> Done (mark a s)
      | Some e \<Rightarrow> Raised e (mark a s))"

text \<open>The property \<open>render\_window\<close> (lines 196-202).\<close>

definition render_window :: "session \<Rightarrow> result" where
  "render_window s =
     (if rw_alive (env s) then Done s
      else Raised (RuntimeError ''VTK render window has closed'') s)"

definition rw_call :: "action \<Rightarrow> session \<Rightarrow> result" where
  "rw_call a = seq [render_window, ext_call a]"

text \<open>The property \<open>interactor\<close> (lines 204-206), followed by a call on it.\<close>

definition interactor_call :: "action \<Rightarrow> session \<Rightarrow> result" where
  "interactor_call a = seq [render_window, ext_call a]"

subsection \<open>Python numerics\<close>

text \<open>\<open>round(x)\<close> of a float: to the nearest integer, a tie to the even one.\<close>

definition py_round :: "real \<Rightarrow> int" where
  "py_round x =
     (let f = \<lfloor>x\<rfloor>; d = x - of_int f in
      if d < 1 / 2 then f
      else if d > 1 / 2 then f + 1
      else if even f then f else f + 1)"

text \<open>\<open>int(x)\<close> of a float: truncation towards zero.\<close>

definition py_int :: "real \<Rightarrow> int" where
  "py_int x = (if 0 \<le> x then \<lfloor>x\<rfloor> else \<lceil>x\<rceil>)"

text \<open>
  Doubles. \<open>to_double x\<close> is the binary64 number nearest to \<open>x\<close>, a tie going to the
  even mantissa: \<open>ilog2 x\<close> is the exponent of \<open>x\<close> (\<open>2 ^ e \<le> |x| < 2 ^ (e + 1)\<close>),
  \<open>ulp x\<close> the spacing of the doubles around \<open>x\<close> (53 bits of mantissa, and the fixed
  spacing \<open>2 ^ -1074\<close> of the subnormal numbers below \<open>2 ^ -1022\<close>). \<open>overflows x\<close>: the
  nearest double would be beyond the largest one, so that IEEE arithmetic gives an infinity
  and the conversion of an \<open>int\<close> raises.
\<close>

fun bit_length :: "nat \<Rightarrow> nat" where
  "bit_length n = (if n = 0 then 0 else Suc (bit_length (n div 2)))"

declare bit_length.simps [simp del]

definition ilog2 :: "real \<Rightarrow> int" where
  "ilog2 x =
     (if 1 \<le> \<bar>x\<bar> then int (bit_length (nat \<lfloor>\<bar>x\<bar>\<rfloor>)) - 1
      else - int (bit_length (nat (\<lceil>1 / \<bar>x\<bar>\<rceil> - 1))))"

definition pow2 :: "int \<Rightarrow> real" where
  "pow2 e = (if 0 \<le> e then 2 ^ nat e else 1 / 2 ^ nat (- e))"

definition ulp :: "real \<Rightarrow> real" where
  "ulp x = pow2 (max (ilog2 x) (- 1022) - 52)"

definition to_double :: "real \<Rightarrow> real" where
  "to_double x = (if x = 0 then 0 else of_int (py_round (x / ulp x)) * ulp x)"

definition overflows :: "real \<Rightarrow> bool" where
  "overflows x = (2 ^ 1024 \<le> \<bar>to_double x\<bar>)"

text \<open>
  \<open>w / d\<close> for an \<open>int\<close> \<open>w\<close> (lines 305 and 307). \<open>quotient\<close> is the exact number
  that Python rounds: for an \<open>int\<close> divisor the quotient of the two integers, for a
  \<open>float\<close> divisor the quotient of \<open>float(w)\<close> by it. The result is a double, or an
  infinity (\<open>None\<close>), which only the division of floats produces.
\<close>

definition quotient :: "int \<Rightarrow> number \<Rightarrow> real" where
  "quotient w d =
     (case d of
        PyInt n \<Rightarrow> of_int w / of_int n
      | PyFloat f \<Rightarrow> to_double (of_int w) / f)"

definition true_divide :: "int \<Rightarrow> number \<Rightarrow> exn + real option" where
  "true_divide w d =
     (case d of
        PyInt n \<Rightarrow>
          if n = 0 then Inl (ZeroDivisionError ''division by zero'')
          else if overflows (quotient w d)
            then Inl (OverflowError ''integer division result too large for a float'')
          else Inr (Some (to_double (quotient w d)))
      | PyFloat f \<Rightarrow>
          if overflows (of_int w) then Inl (OverflowError ''int too large to convert to float'')
          else if f = 0 then Inl (ZeroDivisionError ''float division by zero'')
          else if overflows (quotient w d) then Inr None
          else Inr (Some (to_double (quotient w d))))"

text \<open>
  \<open>round(x * scale)\<close> (lines 306 and 308): \<open>x\<close> is converted to a double (an \<open>int\<close> too
  large raises; a \<open>float\<close> is a double already), the product is rounded to a double, and
  \<open>round\<close> raises on an infinity and on a NaN (zero times an infinity).
\<close>

definition scaled_round :: "real \<Rightarrow> real option \<Rightarrow> exn + int" where
  "scaled_round x scale =
     (if overflows x then Inl (OverflowError ''int too large to convert to float'')
      else case scale of
        None \<Rightarrow>
          if to_double x = 0 then Inl (ValueError ''cannot convert float NaN to integer'')
          else Inl (OverflowError ''cannot convert float infinity to integer'')
      | Some c \<Rightarrow>
          if overflows (to_double x * c)
          then Inl (OverflowError ''cannot convert float infinity to integer'')
          else Inr (py_round (to_double (to_double x * c))))"

subsection \<open>The rate limit\<close>

text \<open>
  Modelled from the spec: the decorator \<open>throttle\<close> of throttler.py, which is not among
  the sources. The spec (sections 4.5 and 9): "explicit last-call timestamps checked
  before executing scheduler entry points", "drop if too soon (not queue and delay)",
  "full render at most 1 per 100ms; quick render at most 1 per 10ms".
  \<open>throttle\_due wait t0 t\<close>: a call at time \<open>t\<close> is executed, when the last
  executed call was at time \<open>t0\<close>.
\<close>

definition throttle_due :: "real \<Rightarrow> real \<Rightarrow> real \<Rightarrow> bool" where
  "throttle_due wait t0 t = (wait \<le> t - t0)"

subsection \<open>Rendering (lines 208-271)\<close>

definition set_quick_render_delay :: "real \<Rightarrow> session \<Rightarrow> session" where
  "set_quick_render_delay delay_sec s =
     (let delay_sec' =
        (if delay_sec < fst (quick_render_delay_sec_range s)
           then fst (quick_render_delay_sec_range s)
         else if delay_sec > snd (quick_render_delay_sec_range s)
           then snd (quick_render_delay_sec_range s)
         else delay_sec)
      in s\<lparr>quick_render_delay_sec := delay_sec'\<rparr>)"

text \<open>The property \<open>\_fast\_image\<close>; the pixels themselves are not modelled.\<close>

definition fast_image :: "session \<Rightarrow> result" where
  "fast_image s = rw_call (GetRGBACharPixelData 0 0 (width s - 1) (height s - 1) 0) s"

definition get_image :: "bool \<Rightarrow> session \<Rightarrow> result" where
  "get_image force_render =
     seq [(\<lambda>s. if force_render then rw_call Render s else Done s), fast_image]"

definition update_canvas :: "bool \<Rightarrow> session \<Rightarrow> result" where
  "update_canvas force_render =
     seq [get_image force_render,
          (\<lambda>s. ext_call (EncodeJPEG (transparent_background s) (quality s)) s),
          (\<lambda>s. ext_call (DrawImage (width s) (height s)) s)]"

text \<open>
  The body of \<open>full\_render\<close> inside its \<open>try\<close> (lines 248-252). \<open>time.time()\<close> is read three times; the
  third reading is an argument of \<open>log.debug\<close>.
\<close>

definition full_render_body :: "session \<Rightarrow> result" where
  "full_render_body =
     seq [(\<lambda>s. Done (tick s)),
          update_canvas True,
          (\<lambda>s. Done ((tick s)\<lparr>last_render_time := now s\<rparr>)),
          (\<lambda>s. Done (tick s))]"

text \<open>The method \<open>full\_render\<close> as written (lines 246-254), under its decorator.\<close>

definition full_render_unthrottled :: "session \<Rightarrow> result" where
  "full_render_unthrottled = try_except full_render_body"

text \<open>
  Modelled from the spec: the decorator \<open>throttle(0.1)\<close> around \<open>full\_render\<close>
  (throttler.py is not among the sources). The call reads the clock; when the last executed
  call is less than the wait ago it is dropped, otherwise its time is recorded and the
  method runs. The mark \<open>FullRenderRequested\<close> records that the call was made.
\<close>

definition full_render :: "session \<Rightarrow> result" where
  "full_render s0 =
     (let s = mark FullRenderRequested s0; t = now s; s1 = tick s in
      if throttle_due 0.1 (full_render_last_call (env s1)) t
      then full_render_unthrottled (s1\<lparr>env := (env s1)\<lparr>full_render_last_call := t\<rparr>\<rparr>)
      else Done s1)"

text \<open>Lines 275-285 of \<open>update\_interactor\_event\_data\<close>: the key, or the position.\<close>

definition set_key_data :: "dom_event \<Rightarrow> session \<Rightarrow> result" where
  "set_key_data event s =
     (case key event of
        None \<Rightarrow> Raised (KeyError ''key'') s
      | Some k \<Rightarrow>
          seq [interactor_call
                 (SetKeySym (case map_of (KEY_TO_SYM (env s)) k of Some v \<Rightarrow> v | None \<Rightarrow> k)),
               (\<lambda>s. if length k = 1 then interactor_call (SetKeyCode k) s else Done s),
               interactor_call (SetRepeatCount 1)] s)"

definition set_position_data :: "dom_event \<Rightarrow> session \<Rightarrow> result" where
  "set_position_data event =
     seq [render_window,
          (\<lambda>s. case offsetX event of
                  None \<Rightarrow> Raised (KeyError ''offsetX'') s
                | Some x \<Rightarrow>
                    (case offsetY event of
                       None \<Rightarrow> Raised (KeyError ''offsetY'') s
                     | Some y \<Rightarrow> ext_call (SetEventPosition x (of_int (height s) - y)) s))]"

text \<open>Lines 286-291.\<close>

definition set_modifier_data :: "dom_event \<Rightarrow> session \<Rightarrow> result" where
  "set_modifier_data event =
     seq [(\<lambda>s. case shiftKey event of
                  None \<Rightarrow> Done s | Some b \<Rightarrow> interactor_call (SetShiftKey b) s),
          (\<lambda>s. case ctrlKey event of
                  None \<Rightarrow> Done s | Some b \<Rightarrow> interactor_call (SetControlKey b) s),
          (\<lambda>s. case altKey event of
                  None \<Rightarrow> Done s | Some b \<Rightarrow> interactor_call (SetAltKey b) s)]"

definition update_interactor_event_data :: "dom_event \<Rightarrow> session \<Rightarrow> result" where
  "update_interactor_event_data event =
     try_except (seq [
       (\<lambda>s. if event_name event = ''keydown'' \<or> event_name event = ''keyup''
             then set_key_data event s else set_position_data event s),
       set_modifier_data event])"

definition send_pending_mouse_move_event :: "session \<Rightarrow> result" where
  "send_pending_mouse_move_event s =
     (case last_mouse_move_event s of
        None \<Rightarrow> Done s
      | Some event \<Rightarrow>
          seq [update_interactor_event_data event,
               interactor_call MouseMoveEvent,
               (\<lambda>s. Done (s\<lparr>last_mouse_move_event := None\<rparr>))] s)"

definition quick_render_body :: "session \<Rightarrow> result" where
  "quick_render_body =
     seq [send_pending_mouse_move_event,
          update_canvas True,
          (\<lambda>s. if log_events s
                then Done ((tick s)\<lparr>elapsed_times :=
                                      elapsed_times s @ [now s - last_render_time s]\<rparr>)
                else Done s),
          (\<lambda>s. Done ((tick s)\<lparr>last_render_time := now s\<rparr>))]"

text \<open>The method \<open>quick\_render\<close> as written (lines 263-271), under its decorator.\<close>

definition quick_render_unthrottled :: "session \<Rightarrow> result" where
  "quick_render_unthrottled = try_except quick_render_body"

text \<open>
  Modelled from the spec: the decorator \<open>throttle(0.01)\<close> around \<open>quick\_render\<close>
  (throttler.py is not among the sources), as for \<open>full\_render\<close>.
\<close>

definition quick_render :: "session \<Rightarrow> result" where
  "quick_render s0 =
     (let s = mark QuickRenderRequested s0; t = now s; s1 = tick s in
      if throttle_due 0.01 (quick_render_last_call (env s1)) t
      then quick_render_unthrottled (s1\<lparr>env := (env s1)\<lparr>quick_render_last_call := t\<rparr>\<rparr>)
      else Done s1)"

subsection \<open>The event handler (lines 295-409)\<close>

text \<open>
  Lines 304-308. The event is a dict that is rescaled in place, so the function returns the
  event as the dict is left, and the exception when one is raised half-way.
\<close>

definition rescale :: "int \<Rightarrow> int \<Rightarrow> dom_event \<Rightarrow> dom_event \<times> exn option" where
  "rescale w h event =
     (case (offsetX event, boundingRectWidth event) of
        (Some x, Some bw) \<Rightarrow>
          (case true_divide w bw of
             Inl e \<Rightarrow> (event, Some e)
           | Inr scale_x \<Rightarrow>
              (case scaled_round x scale_x of
                 Inl e \<Rightarrow> (event, Some e)
               | Inr x' \<Rightarrow>
                  (let event1 = event\<lparr>offsetX := Some (of_int x')\<rparr> in
                   case boundingRectHeight event1 of
                     None \<Rightarrow> (event1, Some (KeyError ''boundingRectHeight''))
                   | Some bh \<Rightarrow>
                      (case true_divide h bh of
                         Inl e \<Rightarrow> (event1, Some e)
                       | Inr scale_y \<Rightarrow>
                          (case offsetY event1 of
                             None \<Rightarrow> (event1, Some (KeyError ''offsetY''))
                           | Some y \<Rightarrow>
                              (case scaled_round y scale_y of
                                 Inl e \<Rightarrow> (event1, Some e)
                               | Inr y' \<Rightarrow>
                                  (event1\<lparr>offsetY := Some (of_int y')\<rparr>, None)))))))
      | _ \<Rightarrow> (event, None))"

text \<open>\<open>event["button"]\<close>, \<open>event["deltaY"]\<close>, \<open>event["timeStamp"]\<close>, \<open>event["key"]\<close>.\<close>

definition getitem :: "string \<Rightarrow> 'a option \<Rightarrow> ('a \<Rightarrow> session \<Rightarrow> result) \<Rightarrow> session \<Rightarrow> result" where
  "getitem name v f s = (case v of None \<Rightarrow> Raised (KeyError name) s | Some x \<Rightarrow> f x s)"

text \<open>Lines 315-318: the offset between the clock of the events and \<open>time.time()\<close>.\<close>

definition capture_timestamp_offset :: "dom_event \<Rightarrow> session \<Rightarrow> result" where
  "capture_timestamp_offset event s =
     (if message_timestamp_offset s = None
      then getitem ''timeStamp'' (timeStamp event)
             (\<lambda>ts s'. Done (s'\<lparr>message_timestamp_offset := Some (now s - ts * 0.001)\<rparr>))
             (tick s)
      else Done s)"

text \<open>Lines 323-338: the adaptive render delay.\<close>

definition adapt_render_delay :: "dom_event \<Rightarrow> session \<Rightarrow> result" where
  "adapt_render_delay event s =
     (if adaptive_render_delay s \<and> \<not> touching s
      then getitem ''timeStamp'' (timeStamp event)
        (\<lambda>ts s'.
           case message_timestamp_offset s' of
             None \<Rightarrow> Raised (TypeError ''unsupported operand type(s) for +'') s'
           | Some off \<Rightarrow>
              (let ageOfProcessedMessage = now s - (ts * 0.001 + off);
                   d = quick_render_delay_sec s';
                   s2 = (if ageOfProcessedMessage > 1.5 * d
                           then set_quick_render_delay (d * 1.05) s'
                         else if ageOfProcessedMessage < 0.5 * d
                           then set_quick_render_delay (d / 1.05) s'
                         else s')
               in Done (if log_events s2
                        then s2\<lparr>age_of_processed_messages :=
                                  age_of_processed_messages s2 @
                                  [(ageOfProcessedMessage, quick_render_delay_sec s2)]\<rparr>
                        else s2)))
        (tick s)
      else Done s)"

text \<open>Lines 341-342.\<close>

definition render_if_due :: "session \<Rightarrow> result" where
  "render_if_due s =
     (if now s - last_render_time s > quick_render_delay_sec s
      then quick_render (tick s) else Done (tick s))"

text \<open>Lines 314-342.\<close>

definition on_mousemove :: "dom_event \<Rightarrow> session \<Rightarrow> result" where
  "on_mousemove event =
     seq [capture_timestamp_offset event,
          (\<lambda>s. Done (s\<lparr>last_mouse_move_event := Some event\<rparr>)),
          (\<lambda>s. if \<not> dragging s \<and> \<not> track_mouse_move s then Done s
                else seq [adapt_render_delay event, render_if_due] s)]"

definition on_mouseenter :: "dom_event \<Rightarrow> session \<Rightarrow> result" where
  "on_mouseenter event =
     seq [update_interactor_event_data event,
          interactor_call EnterEvent,
          (\<lambda>s. Done (s\<lparr>last_mouse_move_event := None\<rparr>))]"

definition on_mouseleave :: "dom_event \<Rightarrow> session \<Rightarrow> result" where
  "on_mouseleave event =
     seq [update_interactor_event_data event,
          interactor_call LeaveEvent,
          (\<lambda>s. Done (s\<lparr>last_mouse_move_event := None\<rparr>)),
          (\<lambda>s. if dragging s
                then seq [interactor_call LeftButtonReleaseEvent,
                          (\<lambda>s. Done (s\<lparr>dragging := False\<rparr>))] s
                else Done s),
          full_render]"

definition on_mousedown :: "dom_event \<Rightarrow> session \<Rightarrow> result" where
  "on_mousedown event =
     seq [(\<lambda>s. Done (s\<lparr>dragging := True\<rparr>)),
          send_pending_mouse_move_event,
          update_interactor_event_data event,
          getitem ''button'' (button event)
            (\<lambda>b s. if b = 0 then interactor_call LeftButtonPressEvent s
                    else if b = 2 then interactor_call RightButtonPressEvent s
                    else if b = 1 then interactor_call MiddleButtonPressEvent s
                    else Done s),
          full_render]"

definition on_mouseup :: "dom_event \<Rightarrow> session \<Rightarrow> result" where
  "on_mouseup event =
     seq [send_pending_mouse_move_event,
          update_interactor_event_data event,
          getitem ''button'' (button event)
            (\<lambda>b s. if b = 0 then interactor_call LeftButtonReleaseEvent s
                    else if b = 2 then interactor_call RightButtonReleaseEvent s
                    else if b = 1 then interactor_call MiddleButtonReleaseEvent s
                    else Done s),
          (\<lambda>s. Done (s\<lparr>dragging := False\<rparr>)),
          full_render]"

definition on_keydown :: "dom_event \<Rightarrow> session \<Rightarrow> result" where
  "on_keydown event =
     seq [send_pending_mouse_move_event,
          update_interactor_event_data event,
          interactor_call KeyPressEvent,
          interactor_call CharEvent,
          getitem ''key'' (key event)
            (\<lambda>k s. if k \<noteq> ''Shift'' \<and> k \<noteq> ''Control'' \<and> k \<noteq> ''Alt''
                    then full_render s else Done s)]"

definition on_keyup :: "dom_event \<Rightarrow> session \<Rightarrow> result" where
  "on_keyup event =
     seq [send_pending_mouse_move_event,
          update_interactor_event_data event,
          interactor_call KeyReleaseEvent,
          getitem ''key'' (key event)
            (\<lambda>k s. if k \<noteq> ''Shift'' \<and> k \<noteq> ''Control'' \<and> k \<noteq> ''Alt''
                    then full_render s else Done s)]"

definition on_wheel :: "dom_event \<Rightarrow> session \<Rightarrow> result" where
  "on_wheel event s =
     (if ''wheel'' \<in> set (watched_events s)
      then seq [send_pending_mouse_move_event,
                update_interactor_event_data event,
                getitem ''deltaY'' (deltaY event)
                  (\<lambda>dy s. if dy < 0 then interactor_call MouseWheelForwardEvent s
                           else interactor_call MouseWheelBackwardEvent s),
                full_render] s
      else Done s)"

text \<open>The \<open>try\<close> block of the handler, lines 310-409, without its \<open>except\<close>.\<close>

definition dispatch :: "dom_event \<Rightarrow> session \<Rightarrow> result" where
  "dispatch event s =
     (if touching s \<and> touch_event event = None then Done s
      else if event_name event = ''mousemove'' then on_mousemove event s
      else if event_name event = ''mouseenter'' then on_mouseenter event s
      else if event_name event = ''mouseleave'' then on_mouseleave event s
      else if event_name event = ''mousedown'' then on_mousedown event s
      else if event_name event = ''mouseup'' then on_mouseup event s
      else if event_name event = ''keydown'' then on_keydown event s
      else if event_name event = ''keyup'' then on_keyup event s
      else if event_name event = ''wheel'' then on_wheel event s
      else Done s)"

text \<open>
  \<open>logged\_events\<close> holds the dict itself, which line 306 and line 308 then change: the
  entry of the log is the event as \<open>rescale\<close> leaves it.
\<close>

definition log_event :: "dom_event \<Rightarrow> session \<Rightarrow> session" where
  "log_event event s =
     (if log_events s then s\<lparr>logged_events := logged_events s @ [event]\<rparr> else s)"

definition handle_interaction_event :: "dom_event \<Rightarrow> session \<Rightarrow> result" where
  "handle_interaction_event event s =
     (case rescale (width s) (height s) event of
        (event', Some e) \<Rightarrow> Raised e (log_event event' s)
      | (event', None) \<Rightarrow> try_except (dispatch event') (log_event event' s))"

subsection \<open>Touch callbacks (lines 143-194) and close (lines 411-413)\<close>

definition touch_dict :: "string \<Rightarrow> real option \<Rightarrow> real option \<Rightarrow> real \<Rightarrow> int option \<Rightarrow> dom_event" where
  "touch_dict name x y t b =
     \<lparr>event_name = name, touch_event = Some True, offsetX = x, offsetY = y, button = b,
      key = None, shiftKey = None, ctrlKey = None, altKey = None, deltaY = None,
      timeStamp = Some t, boundingRectWidth = None, boundingRectHeight = None\<rparr>"

definition on_touch_start :: "(real \<times> real) list \<Rightarrow> session \<Rightarrow> result" where
  "on_touch_start locs s0 =
     (let s = s0\<lparr>touching := True\<rparr> in
      case locs of
        [] \<Rightarrow> Raised (IndexError ''list index out of range'') s
      | (x, y) # _ \<Rightarrow>
          handle_interaction_event
            (touch_dict ''mousedown'' (Some (of_int (py_int x))) (Some (of_int (py_int y)))
               (now s) (Some 0))
            (tick s))"

definition on_touch_end :: "session \<Rightarrow> result" where
  "on_touch_end =
     seq [(\<lambda>s. handle_interaction_event (touch_dict ''mouseup'' None None (now s) (Some 0))
                  (tick s)),
          (\<lambda>s. Done (s\<lparr>touching := False\<rparr>))]"

definition on_touch_move :: "(real \<times> real) list \<Rightarrow> session \<Rightarrow> result" where
  "on_touch_move locs s0 =
     (let s = s0\<lparr>stuff := locs\<rparr> in
      case locs of
        [] \<Rightarrow> Raised (IndexError ''list index out of range'') s
      | (x, y) # _ \<Rightarrow>
          if now s - last_touch s < 0.01 then Done (tick s)
          else
            (let s1 = (tick (tick s))\<lparr>last_touch := now (tick s)\<rparr> in
             handle_interaction_event
               (touch_dict ''mousemove'' (Some (of_int (py_round x))) (Some (of_int (py_round y)))
                  (now s1) None)
               (tick s1)))"

definition close :: "session \<Rightarrow> result" where
  "close = seq [ext_call CanvasClose, ext_call OnClose]"

subsection \<open>Construction (lines 46-140)\<close>

record config =
  cfg_log_events :: bool
  cfg_transparent_background :: bool
  cfg_allow_wheel :: bool
  cfg_quality :: real

datatype init_result = Constructed session | Failed exn world

definition allowed_events :: "bool \<Rightarrow> string list" where
  "allowed_events allow_wheel =
     [''dragstart'', ''mouseenter'', ''mouseleave'', ''mousedown'', ''mouseup'',
      ''mousemove'', ''keyup'', ''keydown'', ''contextmenu'', ''touch_move'']
     @ (if allow_wheel then [''wheel''] else [])"

text \<open>
  The widget with every attribute at the value \<open>\_\_init\_\_\<close> first assigns to it; the
  attributes that \<open>\_\_init\_\_\<close> computes from the world (\<open>\_last\_touch\<close>, \<open>width\<close>,
  \<open>height\<close>, \<open>\_first\_render\_time\<close>) are set by \<open>init\<close> below, in the order of the source.
\<close>

definition fresh :: "world \<Rightarrow> config \<Rightarrow> session" where
  "fresh w cfg =
     \<lparr>env = w, quality = cfg_quality cfg,
      transparent_background = cfg_transparent_background cfg,
      touching = False, last_touch = 0, last_render_time = 0,
      quick_render_delay_sec = 0.001, quick_render_delay_sec_range = (0.001, 2.0),
      adaptive_render_delay = True, last_mouse_move_event = None, has_moved = False,
      track_mouse_move = False, message_timestamp_offset = None,
      width = 0, height = 0, first_render_time = 0, dragging = False,
      watched_events = allowed_events (cfg_allow_wheel cfg),
      error = None, log_events = cfg_log_events cfg, logged_events = [],
      elapsed_times = [], age_of_processed_messages = [], stuff = []\<rparr>"

text \<open>
  Lines 54-140, after the check of \<open>quality\<close>: every call on a collaborator, in the
  order of the source; the assignments to plain attributes of the widget are those of
  \<open>fresh\<close>. \<open>watched\_events\<close> is the list \<open>allowed\_events\<close> of lines 97-113.
\<close>

definition init_steps :: "session \<Rightarrow> result" where
  "init_steps =
     seq [rw_call (SetOffScreenRendering 1),
          (\<lambda>s. Done ((tick s)\<lparr>last_touch := now s\<rparr>)),
          ext_call (SetLayoutWidth ''100%''),
          ext_call (SetLayoutHeight ''auto''),
          rw_call GetSize,
          (\<lambda>s. Done (s\<lparr>width := fst (rw_size (env s)), height := snd (rw_size (env s))\<rparr>)),
          (\<lambda>s. seq [update_canvas True,
                     (\<lambda>s'. Done ((tick s')\<lparr>first_render_time := now s' - now s\<rparr>))]
                 (tick s)),
          ext_call EventInit,
          ext_call (SetThrottleOrDebounce ''throttle''),
          (\<lambda>s. ext_call (SetWait (INTERACTION_THROTTLE (env s))) s),
          ext_call SetSource,
          (\<lambda>s. ext_call (SetWatchedEvents (watched_events s)) s),
          ext_call (SetPreventDefaultAction True),
          ext_call OnDomEvent,
          ext_call OnTouchStart,
          ext_call OnTouchEnd,
          ext_call OnTouchMove]"

definition init :: "world \<Rightarrow> config \<Rightarrow> init_result" where
  "init w cfg =
     (case ext_call CanvasInit (fresh w cfg) of
        Raised e s \<Rightarrow> Failed e (env s)
      | Done s0 \<Rightarrow>
          if cfg_quality cfg < 0 \<or> cfg_quality cfg > 100
          then Failed (ValueError ''`quality` parameter must be between 0 and 100'') (env s0)
          else
            (case init_steps s0 of
               Raised e s \<Rightarrow> Failed e (env s)
             | Done s \<Rightarrow> Constructed s))"

subsection \<open>A session driven by its inputs\<close>

datatype input =
    DomEvent dom_event
  | TouchStart "(real \<times> real) list"
  | TouchEnd
  | TouchMove "(real \<times> real) list"

fun step :: "input \<Rightarrow> session \<Rightarrow> result" where
  "step (DomEvent event) s = handle_interaction_event event s"
| "step (TouchStart locs) s = on_touch_start locs s"
| "step TouchEnd s = on_touch_end s"
| "step (TouchMove locs) s = on_touch_move locs s"

text \<open>
  An exception that leaves a callback is the caller's; the widget goes on with the state
  the callback left.
\<close>

fun run :: "session \<Rightarrow> input list \<Rightarrow> session" where
  "run s [] = s"
| "run s (i # is) = run (state_of (step i s)) is"

section \<open>Vocabulary of the properties\<close>

text \<open>
  \<open>keeps P f\<close>: the method \<open>f\<close> leaves \<open>P\<close> true of the session, whether it
  returns or raises.
\<close>

definition keeps :: "(session \<Rightarrow> bool) \<Rightarrow> (session \<Rightarrow> result) \<Rightarrow> bool" where
  "keeps P f = (\<forall>s. P s \<longrightarrow> P (state_of (f s)))"

text \<open>The calls of \<open>update\_interactor\_event\_data\<close>, and those of \<open>update\_canvas\<close>.\<close>

fun is_setter :: "action \<Rightarrow> bool" where
  "is_setter (SetKeySym k) = True"
| "is_setter (SetKeyCode k) = True"
| "is_setter (SetRepeatCount n) = True"
| "is_setter (SetEventPosition x y) = True"
| "is_setter (SetShiftKey b) = True"
| "is_setter (SetControlKey b) = True"
| "is_setter (SetAltKey b) = True"
| "is_setter a = False"

fun is_render_action :: "action \<Rightarrow> bool" where
  "is_render_action Render = True"
| "is_render_action (GetRGBACharPixelData a b c d e) = True"
| "is_render_action (EncodeJPEG a q) = True"
| "is_render_action (DrawImage w h) = True"
| "is_render_action a = False"

text \<open>
  \<open>robust A P\<close>: \<open>P\<close> does not depend on what the render machinery writes: the
  trace (for the actions in \<open>A\<close>), the clock, the error field, the pending move, the
  render times and the state of the rate limit.
  \<open>sound P\<close>: moreover \<open>P\<close> does not depend on the bookkeeping of the handlers (the
  drag and touch flags, the logs), and survives \<open>set\_quick\_render\_delay\<close> and the
  first capture of the timestamp offset, so that every input of a session keeps it.
\<close>

definition robust :: "(action \<Rightarrow> bool) \<Rightarrow> (session \<Rightarrow> bool) \<Rightarrow> bool" where
  "robust A P =
     (\<forall>s. P s \<longrightarrow>
        (\<forall>a. A a \<longrightarrow> P (mark a s)) \<and> P (tick s) \<and>
        (\<forall>m. P (s\<lparr>error := m\<rparr>)) \<and>
        (\<forall>e. P (s\<lparr>last_mouse_move_event := e\<rparr>)) \<and>
        (\<forall>t. P (s\<lparr>last_render_time := t\<rparr>)) \<and>
        (\<forall>x. P (s\<lparr>elapsed_times := x\<rparr>)) \<and>
        (\<forall>t. P (s\<lparr>env := (env s)\<lparr>full_render_last_call := t\<rparr>\<rparr>)) \<and>
        (\<forall>t. P (s\<lparr>env := (env s)\<lparr>quick_render_last_call := t\<rparr>\<rparr>)))"

definition sound :: "(session \<Rightarrow> bool) \<Rightarrow> bool" where
  "sound P =
     (robust (\<lambda>a. True) P \<and>
      (\<forall>s. P s \<longrightarrow>
         (\<forall>b. P (s\<lparr>dragging := b\<rparr>)) \<and>
         (\<forall>b. P (s\<lparr>touching := b\<rparr>)) \<and>
         (\<forall>t. P (s\<lparr>last_touch := t\<rparr>)) \<and>
         (\<forall>x. P (s\<lparr>stuff := x\<rparr>)) \<and>
         (\<forall>x. P (s\<lparr>logged_events := x\<rparr>)) \<and>
         (\<forall>x. P (s\<lparr>age_of_processed_messages := x\<rparr>)) \<and>
         (\<forall>d. P (set_quick_render_delay d s)) \<and>
         (\<forall>t. message_timestamp_offset s = None \<longrightarrow>
              P (s\<lparr>message_timestamp_offset := Some t\<rparr>))))"

text \<open>
  \<open>extends\_by A s s'\<close>: the trace of \<open>s'\<close> is the trace of \<open>s\<close> followed by actions
  that are all in \<open>A\<close>.
\<close>

definition extends_by :: "(action \<Rightarrow> bool) \<Rightarrow> session \<Rightarrow> session \<Rightarrow> bool" where
  "extends_by A s s' = (\<exists>xs. trace (env s') = trace (env s) @ xs \<and> list_all A xs)"

text \<open>What flushing the pending move injects, and what belongs to no render.\<close>

definition is_move_injection :: "action \<Rightarrow> bool" where
  "is_move_injection a = (is_setter a \<or> a = MouseMoveEvent)"

definition no_render :: "action \<Rightarrow> bool" where
  "no_render a =
     (\<not> is_render_action a \<and> a \<noteq> FullRenderRequested \<and> a \<noteq> QuickRenderRequested)"

text \<open>
  \<open>healthy\<close>: the render window is alive and no collaborator raises.
  \<open>renders\_suppressed\<close>: the rate limit drops every call of \<open>full\_render\<close> and of
  \<open>quick\_render\<close>, whenever it is made.
\<close>

definition healthy :: "session \<Rightarrow> bool" where
  "healthy s = (rw_alive (env s) \<and> faults (env s) = (\<lambda>n. None))"

definition renders_suppressed :: "session \<Rightarrow> bool" where
  "renders_suppressed s =
     (\<forall>n. \<not> throttle_due 0.1 (full_render_last_call (env s)) (clock (env s) n) \<and>
          \<not> throttle_due 0.01 (quick_render_last_call (env s)) (clock (env s) n))"

text \<open>The calls made on the collaborators: the trace without the two request marks.\<close>

definition calls :: "session \<Rightarrow> action list" where
  "calls s =
     filter (\<lambda>a. a \<noteq> FullRenderRequested \<and> a \<noteq> QuickRenderRequested) (trace (env s))"

definition on_close_calls :: "session \<Rightarrow> nat" where
  "on_close_calls s = count_list (trace (env s)) OnClose"

definition full_render_requests :: "session \<Rightarrow> nat" where
  "full_render_requests s = count_list (trace (env s)) FullRenderRequested"

definition delay_in_range :: "session \<Rightarrow> bool" where
  "delay_in_range s =
     (quick_render_delay_sec_range s = (0.001, 2.0) \<and>
      0.001 \<le> quick_render_delay_sec s \<and> quick_render_delay_sec s \<le> 2.0)"

text \<open>The injection of a button press or release, by the tests of lines 359-364 and 369-374.\<close>

definition press_of :: "int \<Rightarrow> action" where
  "press_of b =
     (if b = 0 then LeftButtonPressEvent
      else if b = 2 then RightButtonPressEvent else MiddleButtonPressEvent)"

definition release_of :: "int \<Rightarrow> action" where
  "release_of b =
     (if b = 0 then LeftButtonReleaseEvent
      else if b = 2 then RightButtonReleaseEvent else MiddleButtonReleaseEvent)"


text \<open>
  \<open>finite\_scale w d\<close>: the divisor \<open>d\<close> is not zero and the quotient of \<open>w\<close> by it is
  within the range of the doubles, so that \<open>w / d\<close> is a double.
\<close>

definition finite_scale :: "int \<Rightarrow> number \<Rightarrow> bool" where
  "finite_scale w d =
     (d \<noteq> PyInt 0 \<and> d \<noteq> PyFloat 0 \<and> \<not> overflows (of_int w) \<and> \<not> overflows (quotient w d))"

subsection \<open>Events and worlds of the examples\<close>

text \<open>
  A pointer event in canvas pixels (no bounding rectangle, no modifier keys), and a
  keyboard event.
\<close>

definition pointer_event :: "string \<Rightarrow> real \<Rightarrow> real \<Rightarrow> int option \<Rightarrow> real \<Rightarrow> dom_event" where
  "pointer_event name x y b ts =
     \<lparr>event_name = name, touch_event = None, offsetX = Some x, offsetY = Some y, button = b,
      key = None, shiftKey = None, ctrlKey = None, altKey = None, deltaY = None,
      timeStamp = Some ts, boundingRectWidth = None, boundingRectHeight = None\<rparr>"

definition key_event :: "string \<Rightarrow> string \<Rightarrow> real \<Rightarrow> dom_event" where
  "key_event name k ts =
     \<lparr>event_name = name, touch_event = None, offsetX = None, offsetY = None, button = None,
      key = Some k, shiftKey = Some False, ctrlKey = Some False, altKey = Some False,
      deltaY = None, timeStamp = Some ts, boundingRectWidth = None,
      boundingRectHeight = None\<rparr>"

text \<open>
  A world in which nothing fails: a live render window of 300 by 200 pixels, a clock that
  advances by a tenth of a millisecond with each reading, and an example key table.
\<close>

definition calm_world :: world where
  "calm_world =
     \<lparr>rw_alive = True, rw_size = (300, 200), clock = (\<lambda>n. 1000 + of_nat n / 10000),
      ticks = 0, faults = (\<lambda>n. None), trace = [],
      full_render_last_call = 0, quick_render_last_call = 0,
      KEY_TO_SYM = [(''Shift'', ''Shift_L''), (''Control'', ''Control_L''), (''Alt'', ''Alt_L'')],
      INTERACTION_THROTTLE = 100\<rparr>"

text \<open>The same world with a clock that stands still at the time of the last renders.\<close>

definition frozen_world :: world where
  "frozen_world =
     calm_world\<lparr>clock := (\<lambda>n. 1000), full_render_last_call := 1000,
                 quick_render_last_call := 1000\<rparr>"

text \<open>The default arguments of \<open>\_\_init\_\_\<close> (line 46-48).\<close>

definition default_config :: config where
  "default_config =
     \<lparr>cfg_log_events = True, cfg_transparent_background = False, cfg_allow_wheel = True,
      cfg_quality = 80\<rparr>"

text \<open>The session that \<open>\_\_init\_\_\<close> constructs in the calm world with the defaults.\<close>

definition session0 :: session where
  "session0 =
     \<lparr>env = calm_world\<lparr>ticks := 3,
            trace := [CanvasInit, SetOffScreenRendering 1, SetLayoutWidth ''100%'',
                      SetLayoutHeight ''auto'', GetSize, Render,
                      GetRGBACharPixelData 0 0 299 199 0, EncodeJPEG False 80,
                      DrawImage 300 200, EventInit, SetThrottleOrDebounce ''throttle'',
                      SetWait 100, SetSource, SetWatchedEvents (allowed_events True),
                      SetPreventDefaultAction True, OnDomEvent, OnTouchStart, OnTouchEnd,
                      OnTouchMove]\<rparr>,
      quality = 80, transparent_background = False,
      touching = False, last_touch = 1000, last_render_time = 0,
      quick_render_delay_sec = 0.001, quick_render_delay_sec_range = (0.001, 2.0),
      adaptive_render_delay = True, last_mouse_move_event = None, has_moved = False,
      track_mouse_move = False, message_timestamp_offset = None,
      width = 300, height = 200, first_render_time = 1 / 10000, dragging = False,
      watched_events = allowed_events True,
      error = None, log_events = True, logged_events = [],
      elapsed_times = [], age_of_processed_messages = [], stuff = []\<rparr>"

text \<open>The session of the examples after a press of the right button.\<close>

definition right_drag :: session where
  "right_drag =
     state_of (handle_interaction_event (pointer_event ''mousedown'' 10 20 (Some 2) 5) session0)"

text \<open>
  \<open>steady\<close>: nothing fails, every render is dropped by the rate limit, and the session
  is not touching. \<open>core\<close>: what the drag protocol reads and writes.
\<close>

definition steady :: "session \<Rightarrow> bool" where
  "steady s = (healthy s \<and> renders_suppressed s \<and> \<not> touching s)"

definition core ::
  "session \<Rightarrow> bool \<times> bool \<times> bool \<times> dom_event option \<times> int \<times> action list" where
  "core s = (steady s, touching s, dragging s, last_mouse_move_event s, height s, calls s)"

text \<open>The session of the examples in the world whose clock stands still.\<close>

definition frozen_session :: session where
  "frozen_session = session0\<lparr>env := frozen_world\<rparr>"

section \<open>What every step of a session preserves\<close>

lemma result_case_id [simp]:
  "(case r of Done s \<Rightarrow> Done s | Raised e s \<Rightarrow> Raised e s) = r"
  by (cases r) simp_all

lemma keepsI: "(\<And>s. P s \<Longrightarrow> P (state_of (f s))) \<Longrightarrow> keeps P f"
  by (simp add: keeps_def)

lemma keepsD: "keeps P f \<Longrightarrow> P s \<Longrightarrow> P (state_of (f s))"
  by (simp add: keeps_def)

lemma robust_mark: "robust A P \<Longrightarrow> A a \<Longrightarrow> P s \<Longrightarrow> P (mark a s)"
  and robust_tick: "robust A P \<Longrightarrow> P s \<Longrightarrow> P (tick s)"
  and robust_error: "robust A P \<Longrightarrow> P s \<Longrightarrow> P (s\<lparr>error := m\<rparr>)"
  and robust_pending: "robust A P \<Longrightarrow> P s \<Longrightarrow> P (s\<lparr>last_mouse_move_event := e\<rparr>)"
  and robust_last_render_time: "robust A P \<Longrightarrow> P s \<Longrightarrow> P (s\<lparr>last_render_time := t\<rparr>)"
  and robust_elapsed_times: "robust A P \<Longrightarrow> P s \<Longrightarrow> P (s\<lparr>elapsed_times := xs\<rparr>)"
  and robust_full_last:
    "robust A P \<Longrightarrow> P s \<Longrightarrow> P (s\<lparr>env := (env s)\<lparr>full_render_last_call := t\<rparr>\<rparr>)"
  and robust_quick_last:
    "robust A P \<Longrightarrow> P s \<Longrightarrow> P (s\<lparr>env := (env s)\<lparr>quick_render_last_call := t\<rparr>\<rparr>)"
  by (simp_all add: robust_def)

lemma sound_robust: "sound P \<Longrightarrow> robust (\<lambda>a. True) P"
  and sound_dragging: "sound P \<Longrightarrow> P s \<Longrightarrow> P (s\<lparr>dragging := b\<rparr>)"
  and sound_touching: "sound P \<Longrightarrow> P s \<Longrightarrow> P (s\<lparr>touching := b\<rparr>)"
  and sound_last_touch: "sound P \<Longrightarrow> P s \<Longrightarrow> P (s\<lparr>last_touch := t\<rparr>)"
  and sound_stuff: "sound P \<Longrightarrow> P s \<Longrightarrow> P (s\<lparr>stuff := ys\<rparr>)"
  and sound_logged_events: "sound P \<Longrightarrow> P s \<Longrightarrow> P (s\<lparr>logged_events := es\<rparr>)"
  and sound_ages: "sound P \<Longrightarrow> P s \<Longrightarrow> P (s\<lparr>age_of_processed_messages := zs\<rparr>)"
  and sound_delay: "sound P \<Longrightarrow> P s \<Longrightarrow> P (set_quick_render_delay d s)"
  and sound_offset:
    "sound P \<Longrightarrow> P s \<Longrightarrow> message_timestamp_offset s = None \<Longrightarrow>
     P (s\<lparr>message_timestamp_offset := Some t\<rparr>)"
  by (simp_all add: sound_def)

lemma keeps_seq: "list_all (keeps P) fs \<Longrightarrow> keeps P (seq fs)"
proof (induction fs)
  case Nil
  show ?case by (simp add: keeps_def)
next
  case (Cons f fs)
  then have f: "keeps P f" and fs: "keeps P (seq fs)" by simp_all
  show ?case
  proof (rule keepsI)
    fix s assume "P s"
    with f have "P (state_of (f s))" by (rule keepsD)
    with fs show "P (state_of (seq (f # fs) s))"
      by (cases "f s") (auto dest: keepsD)
  qed
qed

lemma keeps_try_except:
  assumes "keeps P f" and "robust A P"
  shows "keeps P (try_except f)"
proof (rule keepsI)
  fix s assume "P s"
  with assms(1) have "P (state_of (f s))" by (rule keepsD)
  then show "P (state_of (try_except f s))"
    by (cases "f s") (simp_all add: try_except_def robust_error[OF assms(2)])
qed

lemma keeps_ext_call: "robust A P \<Longrightarrow> A a \<Longrightarrow> keeps P (ext_call a)"
  by (auto simp: keeps_def ext_call_def robust_mark split: option.splits)

lemma keeps_render_window: "keeps P render_window"
  by (simp add: keeps_def render_window_def)

lemma keeps_interactor_call: "robust A P \<Longrightarrow> A a \<Longrightarrow> keeps P (interactor_call a)"
  unfolding interactor_call_def
  by (rule keeps_seq) (simp add: keeps_render_window keeps_ext_call)

lemma keeps_rw_call: "robust A P \<Longrightarrow> A a \<Longrightarrow> keeps P (rw_call a)"
  unfolding rw_call_def
  by (rule keeps_seq) (simp add: keeps_render_window keeps_ext_call)

lemma keeps_getitem: "(\<And>x. keeps P (f x)) \<Longrightarrow> keeps P (getitem n v f)"
  by (auto simp: keeps_def getitem_def split: option.splits)

lemma keeps_Done: "(\<And>s. P s \<Longrightarrow> P (u s)) \<Longrightarrow> keeps P (\<lambda>s. Done (u s))"
  by (simp add: keeps_def)

lemma keeps_set_key_data:
  assumes st: "robust A P" and A: "\<And>a. is_setter a \<Longrightarrow> A a"
  shows "keeps P (set_key_data event)"
proof -
  have ic: "keeps P (interactor_call a)" if "is_setter a" for a
    using that by (simp add: keeps_interactor_call[OF st] A)
  have "keeps P (seq [interactor_call (SetKeySym v),
                      (\<lambda>s. if length k = 1 then interactor_call (SetKeyCode k) s else Done s),
                      interactor_call (SetRepeatCount 1)])" for v k
    by (rule keeps_seq) (simp add: ic, simp add: keeps_def ic[unfolded keeps_def])
  then show ?thesis
    by (simp del: seq.simps add: keeps_def set_key_data_def split: option.splits)
qed

lemma keeps_set_position_data:
  assumes st: "robust A P" and A: "\<And>a. is_setter a \<Longrightarrow> A a"
  shows "keeps P (set_position_data event)"
proof -
  have "keeps P (ext_call (SetEventPosition x y))" for x y
    by (simp add: keeps_ext_call[OF st] A)
  then show ?thesis
    unfolding set_position_data_def
    by (intro keeps_seq) (simp add: keeps_render_window, simp add: keeps_def split: option.splits)
qed

lemma keeps_set_modifier_data:
  assumes st: "robust A P" and A: "\<And>a. is_setter a \<Longrightarrow> A a"
  shows "keeps P (set_modifier_data event)"
proof -
  have ic: "keeps P (interactor_call a)" if "is_setter a" for a
    using that by (simp add: keeps_interactor_call[OF st] A)
  show ?thesis
    unfolding set_modifier_data_def
    by (intro keeps_seq) (simp add: keeps_def ic[unfolded keeps_def] split: option.splits)
qed

lemma keeps_update_interactor_event_data:
  assumes st: "robust A P" and A: "\<And>a. is_setter a \<Longrightarrow> A a"
  shows "keeps P (update_interactor_event_data event)"
  unfolding update_interactor_event_data_def
  using keeps_set_key_data[OF st A, of event] keeps_set_position_data[OF st A, of event]
  by (intro keeps_try_except[OF _ st] keeps_seq)
     (simp add: keeps_set_modifier_data[OF st A], simp add: keeps_def)

lemma keeps_send_pending_mouse_move_event:
  assumes st: "robust A P" and A: "\<And>a. is_setter a \<Longrightarrow> A a" and mv: "A MouseMoveEvent"
  shows "keeps P send_pending_mouse_move_event"
proof -
  have "keeps P (seq [update_interactor_event_data event,
               interactor_call MouseMoveEvent,
               (\<lambda>s. Done (s\<lparr>last_mouse_move_event := None\<rparr>))])" for event
    by (rule keeps_seq)
      (simp add: keeps_update_interactor_event_data[OF st A] keeps_interactor_call[OF st mv]
        keeps_Done robust_pending[OF st])
  then show ?thesis
    by (simp add: keeps_def send_pending_mouse_move_event_def split: option.splits)
qed

lemma keeps_update_canvas:
  assumes st: "robust A P" and A: "\<And>a. is_render_action a \<Longrightarrow> A a"
  shows "keeps P (update_canvas force_render)"
proof -
  have rc: "keeps P (rw_call a)" "keeps P (ext_call a)" if "is_render_action a" for a
    using that by (simp_all add: keeps_rw_call[OF st] keeps_ext_call[OF st] A)
  have gi: "keeps P (get_image force_render)"
    unfolding get_image_def
    by (rule keeps_seq) (simp add: keeps_def rc[unfolded keeps_def] fast_image_def)
  show ?thesis
    unfolding update_canvas_def
    by (rule keeps_seq) (simp add: gi, simp add: keeps_def rc[unfolded keeps_def])
qed

lemma keeps_full_render_unthrottled:
  assumes st: "robust A P" and A: "\<And>a. is_render_action a \<Longrightarrow> A a"
  shows "keeps P full_render_unthrottled"
proof -
  have "keeps P full_render_body"
    unfolding full_render_body_def
    by (rule keeps_seq)
      (simp add: keeps_update_canvas[OF st A] keeps_Done robust_tick[OF st]
        robust_last_render_time[OF st])
  then show ?thesis
    unfolding full_render_unthrottled_def by (rule keeps_try_except[OF _ st])
qed

lemma keeps_full_render:
  assumes st: "robust A P" and A: "\<And>a. is_render_action a \<Longrightarrow> A a"
    and rq: "A FullRenderRequested"
  shows "keeps P full_render"
proof (rule keepsI)
  fix s assume "P s"
  then have 1: "P (tick (mark FullRenderRequested s))"
    by (simp add: robust_tick[OF st] robust_mark[OF st rq])
  then have 2: "P ((tick (mark FullRenderRequested s))\<lparr>env :=
               (env (tick (mark FullRenderRequested s)))\<lparr>full_render_last_call := t\<rparr>\<rparr>)" for t
    by (rule robust_full_last[OF st])
  show "P (state_of (full_render s))"
    using 1 keepsD[OF keeps_full_render_unthrottled[OF st A] 2]
    by (simp add: full_render_def Let_def)
qed

lemma keeps_quick_render_unthrottled:
  assumes st: "robust A P" and A: "\<And>a. is_render_action a \<Longrightarrow> A a"
    and B: "\<And>a. is_setter a \<Longrightarrow> A a" and mv: "A MouseMoveEvent"
  shows "keeps P quick_render_unthrottled"
proof -
  have "keeps P quick_render_body"
    unfolding quick_render_body_def
    by (rule keeps_seq)
      (simp add: keeps_update_canvas[OF st A] keeps_send_pending_mouse_move_event[OF st B mv],
       simp add: keeps_def robust_tick[OF st] robust_last_render_time[OF st]
         robust_elapsed_times[OF st])
  then show ?thesis
    unfolding quick_render_unthrottled_def by (rule keeps_try_except[OF _ st])
qed

lemma keeps_quick_render:
  assumes st: "robust A P" and A: "\<And>a. is_render_action a \<Longrightarrow> A a"
    and B: "\<And>a. is_setter a \<Longrightarrow> A a" and mv: "A MouseMoveEvent"
    and rq: "A QuickRenderRequested"
  shows "keeps P quick_render"
proof (rule keepsI)
  fix s assume "P s"
  then have 1: "P (tick (mark QuickRenderRequested s))"
    by (simp add: robust_tick[OF st] robust_mark[OF st rq])
  then have 2: "P ((tick (mark QuickRenderRequested s))\<lparr>env :=
               (env (tick (mark QuickRenderRequested s)))\<lparr>quick_render_last_call := t\<rparr>\<rparr>)" for t
    by (rule robust_quick_last[OF st])
  show "P (state_of (quick_render s))"
    using 1 keepsD[OF keeps_quick_render_unthrottled[OF st A B mv] 2]
    by (simp add: quick_render_def Let_def)
qed

lemma keeps_render_if_due:
  assumes st: "robust (\<lambda>a. True) P"
  shows "keeps P render_if_due"
proof -
  have "keeps P quick_render"
    by (rule keeps_quick_render[OF st]) simp_all
  then show ?thesis
    using robust_tick[OF st] by (simp add: keeps_def render_if_due_def)
qed

lemma keeps_capture_timestamp_offset:
  assumes sd: "sound P"
  shows "keeps P (capture_timestamp_offset event)"
proof (rule keepsI)
  fix s assume P: "P s"
  note T = robust_tick[OF sound_robust[OF sd] P]
  have "message_timestamp_offset (tick s) = message_timestamp_offset s"
    by (simp add: tick_def)
  then show "P (state_of (capture_timestamp_offset event s))"
    using P T sound_offset[OF sd T]
    by (simp add: capture_timestamp_offset_def getitem_def split: option.splits)
qed

lemma keeps_adapt_render_delay:
  assumes sd: "sound P"
  shows "keeps P (adapt_render_delay event)"
proof (rule keepsI)
  fix s assume P: "P s"
  note st = sound_robust[OF sd]
  note T = robust_tick[OF st P]
  show "P (state_of (adapt_render_delay event s))"
    using P T sound_delay[OF sd T] sound_ages[OF sd sound_delay[OF sd T]] sound_ages[OF sd T]
    by (simp add: adapt_render_delay_def getitem_def Let_def split: option.splits)
qed

lemma keeps_on_mousemove:
  assumes sd: "sound P"
  shows "keeps P (on_mousemove event)"
proof -
  note st = sound_robust[OF sd]
  have "keeps P (seq [adapt_render_delay event, render_if_due])"
    by (rule keeps_seq) (simp add: keeps_adapt_render_delay[OF sd] keeps_render_if_due[OF st])
  then have "keeps P (\<lambda>s. if \<not> dragging s \<and> \<not> track_mouse_move s then Done s
                else seq [adapt_render_delay event, render_if_due] s)"
    by (simp del: seq.simps add: keeps_def)
  then show ?thesis
    unfolding on_mousemove_def
    by (intro keeps_seq)
       (simp del: seq.simps add: keeps_capture_timestamp_offset[OF sd] keeps_Done
          robust_pending[OF st])
qed

lemma keeps_handlers:
  assumes sd: "sound P"
  shows "keeps P (on_mouseenter event)" and "keeps P (on_mouseleave event)"
    and "keeps P (on_mousedown event)" and "keeps P (on_mouseup event)"
    and "keeps P (on_keydown event)" and "keeps P (on_keyup event)"
    and "keeps P (on_wheel event)"
proof -
  note st = sound_robust[OF sd]
  have ic: "keeps P (interactor_call a)" for a
    by (simp add: keeps_interactor_call[OF st])
  have ud: "keeps P (update_interactor_event_data e)" for e
    by (simp add: keeps_update_interactor_event_data[OF st])
  have sp: "keeps P send_pending_mouse_move_event"
    by (simp add: keeps_send_pending_mouse_move_event[OF st])
  have fr: "keeps P full_render"
    by (simp add: keeps_full_render[OF st])
  note up = keeps_Done robust_pending[OF st] sound_dragging[OF sd]
  show "keeps P (on_mouseenter event)"
    unfolding on_mouseenter_def by (intro keeps_seq) (simp add: ic ud up)
  have "keeps P (seq [interactor_call LeftButtonReleaseEvent,
                      (\<lambda>s. Done (s\<lparr>dragging := False\<rparr>))])"
    by (intro keeps_seq) (simp add: ic up)
  then have "keeps P (\<lambda>s. if dragging s
                then seq [interactor_call LeftButtonReleaseEvent,
                          (\<lambda>s. Done (s\<lparr>dragging := False\<rparr>))] s
                else Done s)"
    by (simp del: seq.simps add: keeps_def)
  then show "keeps P (on_mouseleave event)"
    unfolding on_mouseleave_def by (intro keeps_seq) (simp del: seq.simps add: ic ud up fr)
  have gp: "keeps P (getitem n (button event)
            (\<lambda>b s. if b = 0 then interactor_call x s
                    else if b = 2 then interactor_call y s
                    else if b = 1 then interactor_call z s
                    else Done s))" for n x y z
    by (intro keeps_getitem) (simp add: keeps_def ic[unfolded keeps_def])
  show "keeps P (on_mousedown event)"
    unfolding on_mousedown_def by (intro keeps_seq) (simp add: sp ud up fr gp)
  show "keeps P (on_mouseup event)"
    unfolding on_mouseup_def by (intro keeps_seq) (simp add: sp ud up fr gp)
  have gk: "keeps P (getitem ''key'' (key event)
            (\<lambda>k s. if k \<noteq> ''Shift'' \<and> k \<noteq> ''Control'' \<and> k \<noteq> ''Alt''
                    then full_render s else Done s))"
    by (intro keeps_getitem) (simp add: keeps_def fr[unfolded keeps_def])
  show "keeps P (on_keydown event)"
    unfolding on_keydown_def by (intro keeps_seq) (simp add: sp ud ic gk)
  show "keeps P (on_keyup event)"
    unfolding on_keyup_def by (intro keeps_seq) (simp add: sp ud ic gk)
  have gw: "keeps P (getitem ''deltaY'' (deltaY event)
                  (\<lambda>dy s. if dy < 0 then interactor_call MouseWheelForwardEvent s
                           else interactor_call MouseWheelBackwardEvent s))"
    by (intro keeps_getitem) (simp add: keeps_def ic[unfolded keeps_def])
  have "keeps P (seq [send_pending_mouse_move_event,
                update_interactor_event_data event,
                getitem ''deltaY'' (deltaY event)
                  (\<lambda>dy s. if dy < 0 then interactor_call MouseWheelForwardEvent s
                           else interactor_call MouseWheelBackwardEvent s),
                full_render])"
    by (intro keeps_seq) (simp add: sp ud gw fr)
  then show "keeps P (on_wheel event)"
    by (simp del: seq.simps add: keeps_def on_wheel_def)
qed

lemma keeps_dispatch: "sound P \<Longrightarrow> keeps P (dispatch event)"
  using keeps_handlers[of P event] keeps_on_mousemove[of P event]
  by (simp add: keeps_def dispatch_def)

lemma keeps_handle_interaction_event:
  assumes sd: "sound P"
  shows "keeps P (handle_interaction_event event)"
proof (rule keepsI)
  fix s assume P: "P s"
  note st = sound_robust[OF sd]
  have L: "P (log_event e s)" for e
    using P sound_logged_events[OF sd P] by (simp add: log_event_def)
  have "P (state_of (try_except (dispatch e) (log_event e s)))" for e
    by (rule keepsD[OF keeps_try_except[OF keeps_dispatch[OF sd] st] L])
  with L show "P (state_of (handle_interaction_event event s))"
    by (simp add: handle_interaction_event_def split: prod.splits option.splits)
qed

lemma keeps_step:
  assumes sd: "sound P"
  shows "keeps P (step i)"
proof (rule keepsI)
  fix s assume P: "P s"
  note st = sound_robust[OF sd]
  note H = keepsD[OF keeps_handle_interaction_event[OF sd]]
  show "P (state_of (step i s))"
  proof (cases i)
    case (DomEvent e)
    with P show ?thesis by (simp add: H)
  next
    case (TouchStart locs)
    have "P (tick (s\<lparr>touching := True\<rparr>))"
      by (intro robust_tick[OF st] sound_touching[OF sd] P)
    from H[OF this] sound_touching[OF sd P] TouchStart show ?thesis
      by (simp add: on_touch_start_def Let_def split: list.splits)
  next
    case TouchEnd
    have "keeps P on_touch_end"
      unfolding on_touch_end_def
      by (intro keeps_seq)
         (simp add: keeps_def H robust_tick[OF st] sound_touching[OF sd])
    from keepsD[OF this P] TouchEnd show ?thesis by simp
  next
    case (TouchMove locs)
    have 1: "P (s\<lparr>stuff := locs\<rparr>)" by (rule sound_stuff[OF sd P])
    have 2: "P (tick ((tick (tick (s\<lparr>stuff := locs\<rparr>)))\<lparr>last_touch := t\<rparr>))" for t
      by (intro robust_tick[OF st] sound_last_touch[OF sd] 1)
    from 1 robust_tick[OF st 1] H[OF 2] TouchMove show ?thesis
      by (auto simp: on_touch_move_def Let_def split: list.splits)
  qed
qed

lemma keeps_run: "sound P \<Longrightarrow> P s \<Longrightarrow> P (run s is)"
proof (induction "is" arbitrary: s)
  case Nil
  then show ?case by simp
next
  case (Cons i "is")
  from keepsD[OF keeps_step[OF Cons.prems(1)] Cons.prems(2)]
  show ?case by (simp add: Cons.IH[OF Cons.prems(1)])
qed

section \<open>Facts about the examples and about single methods\<close>

lemma init_calm_world: "init calm_world default_config = Constructed session0"
  by (simp add: init_def init_steps_def fresh_def ext_call_def mark_def tick_def now_def rw_call_def
      render_window_def update_canvas_def get_image_def fast_image_def allowed_events_def
      calm_world_def default_config_def session0_def)

lemma py_round_near: "\<bar>of_int (py_round x) - x\<bar> \<le> 1 / 2"
proof -
  have "of_int \<lfloor>x\<rfloor> \<le> x" "x < of_int \<lfloor>x\<rfloor> + 1" by linarith+
  then show ?thesis by (auto simp: py_round_def Let_def)
qed

lemmas double_defs =
  to_double_def ulp_def ilog2_def pow2_def bit_length.simps py_round_def
  overflows_def quotient_def true_divide_def scaled_round_def

lemma ulp_positive: "0 < ulp x"
  by (simp add: ulp_def pow2_def)

text \<open>The double of \<open>x\<close> is within half a spacing of \<open>x\<close>.\<close>

lemma to_double_near: "\<bar>to_double x - x\<bar> \<le> ulp x / 2"
proof (cases "x = 0")
  case True
  then show ?thesis using ulp_positive[of x] by (simp add: to_double_def)
next
  case False
  have "of_int (py_round (x / ulp x)) * ulp x - x
        = (of_int (py_round (x / ulp x)) - x / ulp x) * ulp x"
    using ulp_positive[of x] by (simp add: left_diff_distrib)
  then have "\<bar>of_int (py_round (x / ulp x)) * ulp x - x\<bar>
        = \<bar>of_int (py_round (x / ulp x)) - x / ulp x\<bar> * ulp x"
    using ulp_positive[of x] by (simp add: abs_mult)
  also have "\<dots> \<le> 1 / 2 * ulp x"
    using py_round_near[of "x / ulp x"] ulp_positive[of x]
    by (intro mult_right_mono) simp_all
  finally show ?thesis using False by (simp add: to_double_def)
qed

text \<open>
  The doubles of the examples: the quotients and products of lines 305-308 are rounded,
  so that \<open>15 * (300 / 72)\<close> is above \<open>62.5\<close> and \<open>11 * (300 / 440)\<close> below \<open>7.5\<close>.
\<close>

lemma double_examples:
  "to_double 2 = 2" "to_double (1 / 10) = 3602879701896397 / 2 ^ 55"
  "to_double (300 / 72) = 4691249611844267 / 2 ^ 50"
  "py_round (to_double (15 * to_double (300 / 72))) = 63"
  "py_round (to_double (11 * to_double (300 / 440))) = 7"
  by (simp_all add: double_defs)

lemma true_divide_finite:
  "finite_scale w d \<Longrightarrow> true_divide w d = Inr (Some (to_double (quotient w d)))"
  by (cases d) (auto simp: finite_scale_def true_divide_def)

lemma rescale_well_formed:
  assumes "offsetX event = Some x" and "offsetY event = Some y"
    and "boundingRectWidth event = Some bw" and "boundingRectHeight event = Some bh"
    and "finite_scale w bw" and "finite_scale h bh"
    and "\<not> overflows x" and "\<not> overflows y"
    and "\<not> overflows (to_double x * to_double (quotient w bw))"
    and "\<not> overflows (to_double y * to_double (quotient h bh))"
  shows "rescale w h event =
     (event\<lparr>offsetX := Some (of_int (py_round (to_double
                (to_double x * to_double (quotient w bw))))),
             offsetY := Some (of_int (py_round (to_double
                (to_double y * to_double (quotient h bh)))))\<rparr>, None)"
  using assms by (simp add: rescale_def true_divide_finite scaled_round_def)

lemma rescale_skipped: "boundingRectWidth event = None \<Longrightarrow> rescale w h event = (event, None)"
  by (simp add: rescale_def split: option.splits)

lemma rescale_keeps:
  "touch_event (fst (rescale w h event)) = touch_event event"
  "event_name (fst (rescale w h event)) = event_name event"
  "timeStamp (fst (rescale w h event)) = timeStamp event"
  "key (fst (rescale w h event)) = key event"
  "button (fst (rescale w h event)) = button event"
  by (simp_all add: rescale_def Let_def split: option.splits sum.splits)

lemma rescale_pointer_event [simp]:
  "rescale w h (pointer_event name x y b ts) = (pointer_event name x y b ts, None)"
  by (simp add: rescale_skipped pointer_event_def)

lemma rescale_key_event [simp]:
  "rescale w h (key_event name k ts) = (key_event name k ts, None)"
  by (simp add: rescale_skipped key_event_def)

lemma rescale_offsetX_example:
  assumes "offsetX event = Some 50"
    and "boundingRectWidth event = Some (PyInt 100) \<or>
         boundingRectWidth event = Some (PyFloat 100)"
  shows "offsetX (fst (rescale 200 h event)) = Some 100"
proof -
  have 1: "true_divide 200 (PyInt 100) = Inr (Some 2)"
    "true_divide 200 (PyFloat 100) = Inr (Some 2)"
    by (simp_all add: double_defs)
  have 2: "scaled_round 50 (Some 2) = Inr 100"
    by (simp add: double_defs)
  from assms show ?thesis
    by (auto simp: rescale_def 1 2 Let_def split: option.splits sum.splits)
qed

section \<open>The claims\<close>

subsection \<open>C7: rescaling of the offsets\<close>

text \<open>
  C7, as amended. An event that carries \<open>offsetX\<close>, \<open>offsetY\<close>, \<open>boundingRectWidth\<close> and
  \<open>boundingRectHeight\<close>, the two sizes not zero and all numbers within the range of the
  doubles, leaves \<open>rescale\<close> with each offset replaced by
  \<open>round(offset * (canvas size / bounding-rectangle size))\<close>, the quotient and the product
  rounded to doubles and \<open>round\<close> taking a tie to the even integer; \<open>offsetX = 50\<close> with
  \<open>boundingRectWidth = 100\<close> on a canvas of width 200 becomes \<open>offsetX = 100\<close>; an event
  without \<open>boundingRectWidth\<close> is not changed.
\<close>

theorem rescale_offsets:
  "(offsetX event = Some x \<and> offsetY event = Some y \<and>
    boundingRectWidth event = Some bw \<and> boundingRectHeight event = Some bh \<and>
    finite_scale w bw \<and> finite_scale h bh \<and> \<not> overflows x \<and> \<not> overflows y \<and>
    \<not> overflows (to_double x * to_double (quotient w bw)) \<and>
    \<not> overflows (to_double y * to_double (quotient h bh)) \<longrightarrow>
      rescale w h event =
        (event\<lparr>offsetX := Some (of_int (py_round (to_double
                   (to_double x * to_double (quotient w bw))))),
                offsetY := Some (of_int (py_round (to_double
                   (to_double y * to_double (quotient h bh)))))\<rparr>, None)) \<and>
   (offsetX event = Some 50 \<and>
    (boundingRectWidth event = Some (PyInt 100) \<or>
     boundingRectWidth event = Some (PyFloat 100)) \<longrightarrow>
      offsetX (fst (rescale 200 h event)) = Some 100) \<and>
   (boundingRectWidth event = None \<longrightarrow> rescale w h event = (event, None))"
  using rescale_well_formed[of event x y bw bh w h] rescale_offsetX_example[of event h]
    rescale_skipped[of event w h]
  by blast

text \<open>
  Canvas 300 by 300, bounding rectangle 72 by 440: the offsets \<open>(15, 11)\<close> become
  \<open>(63, 7)\<close>, as the doubles give them (the exact products are \<open>62.5\<close> and \<open>7.5\<close>).
\<close>

theorem rescale_offsets_witness:
  "rescale 300 300
     ((pointer_event ''mousedown'' 15 11 (Some 0) 5)
        \<lparr>boundingRectWidth := Some (PyInt 72), boundingRectHeight := Some (PyFloat 440)\<rparr>)
   = ((pointer_event ''mousedown'' 63 7 (Some 0) 5)
        \<lparr>boundingRectWidth := Some (PyInt 72), boundingRectHeight := Some (PyFloat 440)\<rparr>,
      None) \<and>
   offsetX (fst (rescale 200 120
     ((pointer_event ''mousedown'' 50 31 (Some 0) 5)
        \<lparr>boundingRectWidth := Some (PyFloat 100)\<rparr>))) = Some 100 \<and>
   rescale 200 120 (pointer_event ''mousedown'' 50 31 (Some 0) 5)
   = (pointer_event ''mousedown'' 50 31 (Some 0) 5, None)"
proof -
  let ?e = "(pointer_event ''mousedown'' 15 11 (Some 0) 5)
        \<lparr>boundingRectWidth := Some (PyInt 72), boundingRectHeight := Some (PyFloat 440)\<rparr>"
  have f: "finite_scale 300 (PyInt 72)" "finite_scale 300 (PyFloat 440)"
    "\<not> overflows 15" "\<not> overflows 11"
    "\<not> overflows (to_double 15 * to_double (quotient 300 (PyInt 72)))"
    "\<not> overflows (to_double 11 * to_double (quotient 300 (PyFloat 440)))"
    by (simp_all add: finite_scale_def double_defs)
  have v: "py_round (to_double (to_double 15 * to_double (quotient 300 (PyInt 72)))) = 63"
    "py_round (to_double (to_double 11 * to_double (quotient 300 (PyFloat 440)))) = 7"
    by (simp_all add: double_defs)
  have e: "offsetX ?e = Some 15" "offsetY ?e = Some 11"
    "boundingRectWidth ?e = Some (PyInt 72)" "boundingRectHeight ?e = Some (PyFloat 440)"
    by (simp_all add: pointer_event_def)
  have "rescale 300 300 ?e
     = (?e\<lparr>offsetX := Some (of_int (py_round (to_double
                   (to_double 15 * to_double (quotient 300 (PyInt 72)))))),
            offsetY := Some (of_int (py_round (to_double
                   (to_double 11 * to_double (quotient 300 (PyFloat 440))))))\<rparr>, None)"
    using rescale_offsets[of ?e 15 11 "PyInt 72" "PyFloat 440" 300 300] f e by blast
  then have 1: "rescale 300 300 ?e
     = ((pointer_event ''mousedown'' 63 7 (Some 0) 5)
        \<lparr>boundingRectWidth := Some (PyInt 72), boundingRectHeight := Some (PyFloat 440)\<rparr>,
        None)"
    unfolding v by (simp add: pointer_event_def)
  have 2: "offsetX (fst (rescale 200 120
     ((pointer_event ''mousedown'' 50 31 (Some 0) 5)
        \<lparr>boundingRectWidth := Some (PyFloat 100)\<rparr>))) = Some 100"
    using rescale_offsets[of "(pointer_event ''mousedown'' 50 31 (Some 0) 5)
        \<lparr>boundingRectWidth := Some (PyFloat 100)\<rparr>" 0 0 "PyInt 1" "PyInt 1" 1 120]
    by (simp add: pointer_event_def)
  have 3: "rescale 200 120 (pointer_event ''mousedown'' 50 31 (Some 0) 5)
     = (pointer_event ''mousedown'' 50 31 (Some 0) 5, None)"
    using rescale_offsets[of "pointer_event ''mousedown'' 50 31 (Some 0) 5"
        0 0 "PyInt 1" "PyInt 1" 200 120]
    by (simp add: pointer_event_def)
  from 1 2 3 show ?thesis by blast
qed

text \<open>
  The claim as stated fails: an event that carries \<open>offsetX\<close> and \<open>boundingRectWidth\<close>
  but no \<open>boundingRectHeight\<close> has its \<open>offsetX\<close> rescaled and its \<open>offsetY\<close> left as
  it was, and the handler raises \<open>KeyError\<close>; with a bounding rectangle of width zero
  nothing is rescaled and the handler raises \<open>ZeroDivisionError\<close>.
\<close>

theorem rescale_counterexample:
  "offsetX ((pointer_event ''mousedown'' 50 31 (Some 0) 5)
             \<lparr>boundingRectWidth := Some (PyInt 100)\<rparr>) = Some 50 \<and>
   boundingRectWidth ((pointer_event ''mousedown'' 50 31 (Some 0) 5)
             \<lparr>boundingRectWidth := Some (PyInt 100)\<rparr>) = Some (PyInt 100) \<and>
   handle_interaction_event
     ((pointer_event ''mousedown'' 50 31 (Some 0) 5)\<lparr>boundingRectWidth := Some (PyInt 100)\<rparr>)
     session0
   = Raised (KeyError ''boundingRectHeight'')
       (session0\<lparr>logged_events :=
          [(pointer_event ''mousedown'' 150 31 (Some 0) 5)
             \<lparr>boundingRectWidth := Some (PyInt 100)\<rparr>]\<rparr>) \<and>
   handle_interaction_event
     ((pointer_event ''mousedown'' 50 31 (Some 0) 5)
        \<lparr>boundingRectWidth := Some (PyFloat 0), boundingRectHeight := Some (PyFloat 80)\<rparr>)
     session0
   = Raised (ZeroDivisionError ''float division by zero'')
       (session0\<lparr>logged_events :=
          [(pointer_event ''mousedown'' 50 31 (Some 0) 5)
             \<lparr>boundingRectWidth := Some (PyFloat 0),
              boundingRectHeight := Some (PyFloat 80)\<rparr>]\<rparr>)"
  by (simp add: handle_interaction_event_def rescale_def log_event_def double_defs
      pointer_event_def session0_def)

subsection \<open>C9: failures inside the render paths\<close>

text \<open>
  C9. \<open>full\_render\<close> and \<open>quick\_render\<close> return normally in every session and every
  world, whatever the render window, the pixel read, the encoder or the canvas raise; when
  the body of the method raises \<open>e\<close>, the method returns with \<open>error = str(e)\<close>.
\<close>

theorem render_failures_are_recorded:
  "(\<exists>s'. full_render s = Done s') \<and> (\<exists>s'. quick_render s = Done s') \<and>
   (case full_render_body s of
      Done s' \<Rightarrow> full_render_unthrottled s = Done s'
    | Raised e s' \<Rightarrow> full_render_unthrottled s = Done (s'\<lparr>error := Some (str e)\<rparr>)) \<and>
   (case quick_render_body s of
      Done s' \<Rightarrow> quick_render_unthrottled s = Done s'
    | Raised e s' \<Rightarrow> quick_render_unthrottled s = Done (s'\<lparr>error := Some (str e)\<rparr>))"
  by (simp add: full_render_def quick_render_def full_render_unthrottled_def
      quick_render_unthrottled_def try_except_def Let_def split: result.splits)

text \<open>
  For example, when the render window has been destroyed, the full render of the session
  of the examples returns with the message of line 201 in \<open>error\<close>; and when the
  encoder raises, with the message of the encoder.
\<close>

lemma full_render_dead_window:
  "full_render_unthrottled (session0\<lparr>env := (env session0)\<lparr>rw_alive := False\<rparr>\<rparr>)
     = Done (session0\<lparr>env := (env session0)\<lparr>rw_alive := False, ticks := 4\<rparr>,
                      error := Some ''VTK render window has closed''\<rparr>)"
  by (simp add: full_render_unthrottled_def full_render_body_def update_canvas_def
      get_image_def rw_call_def render_window_def try_except_def tick_def session0_def
      calm_world_def)

lemma quick_render_encoder_fault:
  "error (state_of (quick_render_unthrottled
     (session0\<lparr>env := (env session0)\<lparr>faults := (\<lambda>n. if n = 21 then Some (Fault ''cannot write'')
                                                     else None)\<rparr>\<rparr>)))
     = Some ''cannot write''"
  by (simp add: quick_render_unthrottled_def quick_render_body_def update_canvas_def
      send_pending_mouse_move_event_def get_image_def fast_image_def rw_call_def
      render_window_def ext_call_def mark_def try_except_def tick_def session0_def
      calm_world_def)

subsection \<open>C4: close and the clean-up callback\<close>

text \<open>
  C4, as amended. When no collaborator raises, each call of \<open>close()\<close> invokes the
  clean-up callback once: after one call it has been invoked once more than before, after
  two calls twice more.
\<close>

theorem close_invokes_callback_each_time:
  "faults (env s) = (\<lambda>n. None) \<longrightarrow>
     on_close_calls (state_of (close s)) = on_close_calls s + 1 \<and>
     on_close_calls (state_of (seq [close, close] s)) = on_close_calls s + 2"
  by (simp add: close_def ext_call_def mark_def on_close_calls_def)

theorem close_invokes_callback_each_time_witness:
  "faults (env session0) = (\<lambda>n. None) \<and>
   on_close_calls session0 = 0 \<and>
   on_close_calls (state_of (close session0)) = 1 \<and>
   on_close_calls (state_of (seq [close, close] session0)) = 2"
  using close_invokes_callback_each_time[of session0]
  by (simp add: session0_def calm_world_def on_close_calls_def)

text \<open>
  The claim as stated fails: two calls of \<open>close()\<close> on the session constructed in the
  calm world invoke the callback twice, not once.
\<close>

theorem close_twice_counterexample:
  "on_close_calls (state_of (seq [close, close] session0)) = 2 \<and>
   on_close_calls (state_of (seq [close, close] session0)) \<noteq> 1"
  by (simp add: close_def ext_call_def mark_def on_close_calls_def session0_def calm_world_def)

subsection \<open>C5: events dropped while touching\<close>

text \<open>
  C5, as amended. While \<open>touching\<close> is true, an event without the \<open>touch\_event\<close> tag
  changes nothing of the session but the log of events: nothing is injected, no render is
  requested, and the drag state, the pending move and the delay stay as they are; the
  event (as rescaled) is appended to \<open>logged\_events\<close> when \<open>log\_events\<close> is on.
\<close>

theorem touch_gate_drops:
  "touching s \<and> touch_event event = None \<longrightarrow>
     state_of (handle_interaction_event event s)
       = s\<lparr>logged_events :=
             (if log_events s
              then logged_events s @ [fst (rescale (width s) (height s) event)]
              else logged_events s)\<rparr>"
proof (intro impI, elim conjE)
  assume t: "touching s" and n: "touch_event event = None"
  obtain e' r where R: "rescale (width s) (height s) event = (e', r)" by fastforce
  have "touch_event e' = None"
    using rescale_keeps(1)[of "width s" "height s" event] R n by simp
  then have "dispatch e' (log_event e' s) = Done (log_event e' s)"
    using t by (simp add: dispatch_def log_event_def)
  then show "state_of (handle_interaction_event event s)
       = s\<lparr>logged_events :=
             (if log_events s
              then logged_events s @ [fst (rescale (width s) (height s) event)]
              else logged_events s)\<rparr>"
    using R by (cases r) (simp_all add: handle_interaction_event_def try_except_def log_event_def)
qed

theorem touch_gate_drops_witness:
  "touching (session0\<lparr>touching := True\<rparr>) \<and>
   touch_event (pointer_event ''mousedown'' 10 20 (Some 0) 5) = None \<and>
   state_of (handle_interaction_event (pointer_event ''mousedown'' 10 20 (Some 0) 5)
               (session0\<lparr>touching := True\<rparr>))
     = session0\<lparr>touching := True,
                 logged_events := [pointer_event ''mousedown'' 10 20 (Some 0) 5]\<rparr>"
  using touch_gate_drops[of "session0\<lparr>touching := True\<rparr>"
                            "pointer_event ''mousedown'' 10 20 (Some 0) 5"]
  by (simp add: session0_def pointer_event_def rescale_def)

text \<open>
  The claim as stated fails: with logging on (the default), the dropped event changes
  the session, whose \<open>logged\_events\<close> grows.
\<close>

theorem touch_gate_counterexample:
  "touching (session0\<lparr>touching := True\<rparr>) \<and>
   touch_event (pointer_event ''mousedown'' 10 20 (Some 0) 5) = None \<and>
   logged_events (session0\<lparr>touching := True\<rparr>) = [] \<and>
   logged_events (state_of (handle_interaction_event
                    (pointer_event ''mousedown'' 10 20 (Some 0) 5)
                    (session0\<lparr>touching := True\<rparr>)))
     = [pointer_event ''mousedown'' 10 20 (Some 0) 5]"
  by (simp add: handle_interaction_event_def dispatch_def log_event_def try_except_def
      session0_def pointer_event_def rescale_def)

subsection \<open>C2: the quick-render delay stays within its range\<close>

lemma sound_delay_in_range: "sound delay_in_range"
  by (simp add: sound_def robust_def delay_in_range_def mark_def tick_def
      set_quick_render_delay_def Let_def)

lemma keeps_init_steps:
  assumes sd: "sound P"
    and sz: "\<And>s w h. P s \<Longrightarrow> P (s\<lparr>width := w, height := h\<rparr>)"
    and fr: "\<And>s t. P s \<Longrightarrow> P (s\<lparr>first_render_time := t\<rparr>)"
  shows "keeps P init_steps"
proof -
  note st = sound_robust[OF sd]
  have "keeps P (seq [update_canvas True,
                      (\<lambda>s'. Done ((tick s')\<lparr>first_render_time := now s' - t\<rparr>))])" for t
    by (intro keeps_seq) (simp add: keeps_update_canvas[OF st] keeps_Done fr robust_tick[OF st])
  then have "keeps P (\<lambda>s. seq [update_canvas True,
                     (\<lambda>s'. Done ((tick s')\<lparr>first_render_time := now s' - now s\<rparr>))]
                 (tick s))"
    using robust_tick[OF st] by (simp del: seq.simps add: keeps_def)
  then show ?thesis
    unfolding init_steps_def
    by (intro keeps_seq)
       (simp del: seq.simps add: keeps_rw_call[OF st] keeps_ext_call[OF st] keeps_Done sz
          robust_tick[OF st] sound_last_touch[OF sd]
          keeps_ext_call[OF st, unfolded keeps_def] keeps_def[of P "\<lambda>s. ext_call (f s) s" for f])
qed

lemma init_delay_in_range:
  assumes "init w cfg = Constructed s"
  shows "delay_in_range s"
proof -
  have k: "keeps delay_in_range init_steps"
    by (rule keeps_init_steps[OF sound_delay_in_range]) (simp_all add: delay_in_range_def)
  have 0: "delay_in_range (mark CanvasInit (fresh w cfg))"
    by (simp add: delay_in_range_def fresh_def mark_def)
  from assms have "init_steps (mark CanvasInit (fresh w cfg)) = Done s"
    by (simp add: init_def ext_call_def split: option.splits if_splits result.splits)
  with keepsD[OF k 0] show ?thesis by simp
qed

text \<open>
  C2. The session that \<open>\_\_init\_\_\<close> constructs has its quick-render delay in
  \<open>[0.001, 2.0]\<close> (and that range as \<open>quick\_render\_delay\_sec\_range\<close>); and from a
  session of which this holds, every sequence of DOM events and touch callbacks, in every
  world (every clock, hence every staleness, and every failure of a collaborator), leads
  to a session of which it holds.
\<close>

theorem delay_stays_in_range:
  "(init w cfg = Constructed s \<longrightarrow> delay_in_range s) \<and>
   (delay_in_range s \<longrightarrow> delay_in_range (run s inputs))"
  using init_delay_in_range[of w cfg s] keeps_run[OF sound_delay_in_range, of s inputs]
  by blast

theorem delay_stays_in_range_witness:
  "init calm_world default_config = Constructed session0 \<and>
   quick_render_delay_sec session0 = 0.001 \<and>
   delay_in_range session0 \<and>
   delay_in_range (run session0
     [DomEvent (pointer_event ''mousedown'' 10 20 (Some 0) 5),
      DomEvent (pointer_event ''mousemove'' 11 21 None 6),
      TouchStart [(3, 4)],
      DomEvent (pointer_event ''mouseup'' 11 21 (Some 0) 9)])"
  using delay_stays_in_range[of calm_world default_config session0
     "[DomEvent (pointer_event ''mousedown'' 10 20 (Some 0) 5),
       DomEvent (pointer_event ''mousemove'' 11 21 None 6),
       TouchStart [(3, 4)],
       DomEvent (pointer_event ''mouseup'' 11 21 (Some 0) 9)]"]
    init_calm_world
  by (simp add: session0_def)

subsection \<open>C8: the check of the quality\<close>









subsection \<open>C1: the adaptive render delay\<close>






text \<open>Every reading of \<open>time.time()\<close> of the examples, and the events of the examples.\<close>

lemmas unfold_handler =
  handle_interaction_event_def log_event_def dispatch_def try_except_def
  on_mousedown_def on_mousemove_def on_mouseup_def on_mouseleave_def on_keydown_def
  on_keyup_def send_pending_mouse_move_event_def
  update_interactor_event_data_def set_position_data_def set_key_data_def
  set_modifier_data_def getitem_def interactor_call_def render_window_def ext_call_def
  mark_def tick_def now_def
  full_render_def full_render_unthrottled_def full_render_body_def update_canvas_def
  get_image_def fast_image_def rw_call_def throttle_due_def
  capture_timestamp_offset_def adapt_render_delay_def render_if_due_def
  quick_render_def quick_render_unthrottled_def quick_render_body_def
  set_quick_render_delay_def Let_def rescale_def




section \<open>Healthy worlds and the shape of the trace\<close>

lemma mark_fields [simp]:
  "dragging (mark a s) = dragging s" "touching (mark a s) = touching s"
  "last_mouse_move_event (mark a s) = last_mouse_move_event s"
  "height (mark a s) = height s" "width (mark a s) = width s"
  "log_events (mark a s) = log_events s" "watched_events (mark a s) = watched_events s"
  "trace (env (mark a s)) = trace (env s) @ [a]"
  "KEY_TO_SYM (env (mark a s)) = KEY_TO_SYM (env s)"
  by (simp_all add: mark_def)

lemma tick_fields [simp]:
  "dragging (tick s) = dragging s" "touching (tick s) = touching s"
  "last_mouse_move_event (tick s) = last_mouse_move_event s"
  "height (tick s) = height s" "width (tick s) = width s"
  "log_events (tick s) = log_events s" "watched_events (tick s) = watched_events s"
  "trace (env (tick s)) = trace (env s)"
  "KEY_TO_SYM (env (tick s)) = KEY_TO_SYM (env s)"
  by (simp_all add: tick_def)

lemma log_event_fields [simp]:
  "dragging (log_event e s) = dragging s" "touching (log_event e s) = touching s"
  "last_mouse_move_event (log_event e s) = last_mouse_move_event s"
  "height (log_event e s) = height s" "width (log_event e s) = width s"
  "watched_events (log_event e s) = watched_events s"
  "env (log_event e s) = env s"
  by (simp_all add: log_event_def)

lemma extends_by_refl: "extends_by A s s"
  by (simp add: extends_by_def)

lemma extends_by_mark: "A a \<Longrightarrow> extends_by A s (mark a s)"
  by (simp add: extends_by_def mark_def)

lemma extends_by_trans: "extends_by A s s1 \<Longrightarrow> extends_by A s1 s2 \<Longrightarrow> extends_by A s s2"
  by (auto simp: extends_by_def)

lemma extends_by_mono: "(\<And>a. A a \<Longrightarrow> B a) \<Longrightarrow> extends_by A s s' \<Longrightarrow> extends_by B s s'"
  by (auto simp: extends_by_def list_all_iff)

lemma robust_extends_by: "robust A (extends_by A s)"
  by (auto simp: robust_def extends_by_def mark_def tick_def)

lemma robust_healthy: "robust A healthy"
  by (simp add: robust_def healthy_def mark_def tick_def)

lemma robust_field:
  "robust A (\<lambda>s. dragging s = b)" "robust A (\<lambda>s. touching s = b)"
  "robust A (\<lambda>s. height s = h)" "robust A (\<lambda>s. width s = w)"
  by (simp_all add: robust_def mark_def tick_def)

lemma ext_call_healthy: "healthy s \<Longrightarrow> ext_call a s = Done (mark a s)"
  by (simp add: healthy_def ext_call_def)

lemma interactor_call_healthy: "healthy s \<Longrightarrow> interactor_call a s = Done (mark a s)"
  by (simp add: healthy_def interactor_call_def render_window_def ext_call_def)

lemma healthy_mark [simp]: "healthy (mark a s) = healthy s"
  and healthy_tick [simp]: "healthy (tick s) = healthy s"
  by (simp_all add: healthy_def mark_def tick_def)

lemma update_interactor_event_data_Done:
  "update_interactor_event_data event s = Done (state_of (update_interactor_event_data event s))"
  by (simp add: update_interactor_event_data_def try_except_def split: result.splits)

lemma full_render_Done: "full_render s = Done (state_of (full_render s))"
  by (simp add: full_render_def full_render_unthrottled_def try_except_def Let_def
      split: result.splits)

lemma send_pending_Done:
  assumes "healthy s"
  shows "send_pending_mouse_move_event s = Done (state_of (send_pending_mouse_move_event s))"
proof (cases "last_mouse_move_event s")
  case None
  then show ?thesis by (simp add: send_pending_mouse_move_event_def)
next
  case (Some e)
  have "healthy (state_of (update_interactor_event_data e s))"
    by (rule keepsD[OF keeps_update_interactor_event_data[OF robust_healthy] assms]) simp
  then show ?thesis
    using update_interactor_event_data_Done[of e s] Some
    by (auto simp: send_pending_mouse_move_event_def interactor_call_healthy
        split: result.splits)
qed

lemma send_pending_extends:
  "extends_by is_move_injection s (state_of (send_pending_mouse_move_event s))"
  by (rule keepsD[OF keeps_send_pending_mouse_move_event[OF robust_extends_by] extends_by_refl])
     (simp_all add: is_move_injection_def)

lemma update_data_extends:
  "extends_by is_setter s (state_of (update_interactor_event_data event s))"
  by (rule keepsD[OF keeps_update_interactor_event_data[OF robust_extends_by] extends_by_refl])

lemma full_render_extends:
  "extends_by is_render_action (mark FullRenderRequested s) (state_of (full_render s))"
proof -
  let ?P = "extends_by is_render_action (mark FullRenderRequested s)"
  note st = robust_extends_by[of is_render_action "mark FullRenderRequested s"]
  have 1: "?P (tick (mark FullRenderRequested s))"
    by (rule robust_tick[OF st extends_by_refl])
  then have 2: "?P ((tick (mark FullRenderRequested s))\<lparr>env :=
               (env (tick (mark FullRenderRequested s)))\<lparr>full_render_last_call := t\<rparr>\<rparr>)" for t
    by (rule robust_full_last[OF st])
  show ?thesis
    using 1 keepsD[OF keeps_full_render_unthrottled[OF st] 2]
    by (simp add: full_render_def Let_def)
qed

subsection \<open>C10: leaving the canvas while dragging\<close>

lemma healthy_upd [simp]:
  "healthy (s\<lparr>last_mouse_move_event := m\<rparr>) = healthy s"
  "healthy (s\<lparr>dragging := b\<rparr>) = healthy s"
  "healthy (log_event e s) = healthy s"
  by (simp_all add: healthy_def)


text \<open>The session after a press of the right button in the session of the examples.\<close>

lemma right_drag_facts:
  "healthy right_drag" "dragging right_drag" "\<not> touching right_drag"
  "calls right_drag
     = calls session0 @ [SetEventPosition 10 180, RightButtonPressEvent, Render,
                         GetRGBACharPixelData 0 0 299 199 0, EncodeJPEG False 80,
                         DrawImage 300 200]"
  by (simp_all add: right_drag_def healthy_def calls_def unfold_handler session0_def
      calm_world_def pointer_event_def)

text \<open>
  C10. In a world where nothing fails, a \<open>mouseleave\<close> event that is handled (not
  dropped by the touch gate, not failing in the rescaling) while \<open>dragging\<close> is true
  adds to the trace: calls that set the event data, then \<open>LeaveEvent\<close>, then
  \<open>LeftButtonReleaseEvent\<close>, then the request of a full render, then calls of that
  render only. So the one release injected is that of the left button, whatever the session
  was before (whichever button started the drag); and \<open>dragging\<close> is false afterwards.
\<close>

theorem leave_while_dragging:
  "healthy s \<and> dragging s \<and> \<not> (touching s \<and> touch_event event = None) \<and>
   event_name event = ''mouseleave'' \<and> snd (rescale (width s) (height s) event) = None \<longrightarrow>
     (\<exists>s' pre post.
        handle_interaction_event event s = Done s' \<and>
        trace (env s') = trace (env s) @ pre
                           @ [LeaveEvent, LeftButtonReleaseEvent, FullRenderRequested] @ post \<and>
        list_all is_setter pre \<and> list_all is_render_action post \<and>
        \<not> dragging s')"
proof (intro impI, elim conjE)
  assume h: "healthy s" and d: "dragging s"
    and g: "\<not> (touching s \<and> touch_event event = None)"
    and nm: "event_name event = ''mouseleave''"
    and rs: "snd (rescale (width s) (height s) event) = None"
  obtain e' where R: "rescale (width s) (height s) event = (e', None)"
    using rs by (cases "rescale (width s) (height s) event") auto
  have e': "event_name e' = ''mouseleave''" "touch_event e' = touch_event event"
    using rescale_keeps(1,2)[of "width s" "height s" event] R nm by simp_all
  define s0 where "s0 = log_event e' s"
  define s1 where "s1 = state_of (update_interactor_event_data e' s0)"
  define s3 where "s3 = (mark LeftButtonReleaseEvent
                          ((mark LeaveEvent s1)\<lparr>last_mouse_move_event := None\<rparr>))\<lparr>dragging := False\<rparr>"
  define s4 where "s4 = state_of (full_render s3)"
  have h0: "healthy s0" and d0: "dragging s0" using h d by (simp_all add: s0_def)
  have U: "update_interactor_event_data e' s0 = Done s1"
    unfolding s1_def by (rule update_interactor_event_data_Done)
  have h1: "healthy s1"
    unfolding s1_def
    by (rule keepsD[OF keeps_update_interactor_event_data[OF robust_healthy] h0]) simp
  have d1: "dragging s1 = True"
    unfolding s1_def
    by (rule keepsD[OF keeps_update_interactor_event_data[OF robust_field(1)]]) (simp_all add: d0)
  obtain pre where pre: "trace (env s1) = trace (env s0) @ pre" "list_all is_setter pre"
    using update_data_extends[of s0 e'] by (auto simp: extends_by_def s1_def)
  have F: "full_render s3 = Done s4"
    unfolding s4_def by (rule full_render_Done)
  have d4: "dragging s4 = False"
    unfolding s4_def
    by (rule keepsD[OF keeps_full_render[OF robust_field(1)]]) (simp_all add: s3_def)
  obtain post where post: "trace (env s4) = trace (env (mark FullRenderRequested s3)) @ post"
      "list_all is_render_action post"
    using full_render_extends[of s3] by (auto simp: extends_by_def s4_def)
  have "on_mouseleave e' s0 = Done s4"
    using h1 d1 by (simp add: on_mouseleave_def U interactor_call_healthy F[unfolded s3_def])
  then have "handle_interaction_event event s = Done s4"
    using R g e' by (auto simp: handle_interaction_event_def dispatch_def try_except_def s0_def)
  moreover have "trace (env s4) = trace (env s) @ pre
                   @ [LeaveEvent, LeftButtonReleaseEvent, FullRenderRequested] @ post"
    using post(1) pre(1) by (simp add: s3_def s0_def)
  ultimately show "\<exists>s' pre post.
        handle_interaction_event event s = Done s' \<and>
        trace (env s') = trace (env s) @ pre
                           @ [LeaveEvent, LeftButtonReleaseEvent, FullRenderRequested] @ post \<and>
        list_all is_setter pre \<and> list_all is_render_action post \<and>
        \<not> dragging s'"
    using pre(2) post(2) d4 by blast
qed

theorem leave_while_dragging_witness:
  "healthy right_drag \<and> dragging right_drag \<and>
   RightButtonPressEvent \<in> set (calls right_drag) \<and>
   (\<exists>s' pre post.
      handle_interaction_event (pointer_event ''mouseleave'' 0 50 None 7) right_drag = Done s' \<and>
      trace (env s') = trace (env right_drag) @ pre
                         @ [LeaveEvent, LeftButtonReleaseEvent, FullRenderRequested] @ post \<and>
      list_all is_setter pre \<and> list_all is_render_action post \<and>
      \<not> dragging s')"
  using leave_while_dragging[of right_drag "pointer_event ''mouseleave'' 0 50 None 7"]
    right_drag_facts
  by (simp add: pointer_event_def rescale_def)

subsection \<open>C6: key events and the full render\<close>

lemma flush_update_healthy:
  assumes h: "healthy s0"
  shows "\<exists>s1 s2 pre. send_pending_mouse_move_event s0 = Done s1 \<and>
           update_interactor_event_data e s1 = Done s2 \<and> healthy s2 \<and>
           trace (env s2) = trace (env s0) @ pre \<and> list_all is_move_injection pre"
proof -
  define s1 where "s1 = state_of (send_pending_mouse_move_event s0)"
  define s2 where "s2 = state_of (update_interactor_event_data e s1)"
  have S: "send_pending_mouse_move_event s0 = Done s1"
    unfolding s1_def by (rule send_pending_Done[OF h])
  have h1: "healthy s1"
    unfolding s1_def
    by (rule keepsD[OF keeps_send_pending_mouse_move_event[OF robust_healthy] h]) simp_all
  have U: "update_interactor_event_data e s1 = Done s2"
    unfolding s2_def by (rule update_interactor_event_data_Done)
  have h2: "healthy s2"
    unfolding s2_def
    by (rule keepsD[OF keeps_update_interactor_event_data[OF robust_healthy] h1]) simp
  have "extends_by is_move_injection s0 s1"
    unfolding s1_def by (rule send_pending_extends)
  moreover have "extends_by is_move_injection s1 s2"
    unfolding s2_def
    by (rule extends_by_mono[OF _ update_data_extends]) (simp add: is_move_injection_def)
  ultimately have "extends_by is_move_injection s0 s2" by (rule extends_by_trans)
  with S U h2 show ?thesis by (auto simp: extends_by_def)
qed

lemma setter_no_render: "is_setter a \<Longrightarrow> no_render a"
  by (cases a) (simp_all add: no_render_def)

lemma keeps_on_key_modifier:
  assumes st: "robust A P" and A: "\<And>a. no_render a \<Longrightarrow> A a"
    and k: "key event = Some k" "k = ''Shift'' \<or> k = ''Control'' \<or> k = ''Alt''"
  shows "keeps P (on_keydown event)" and "keeps P (on_keyup event)"
proof -
  have SA: "A a" if "is_setter a" for a
    using that by (intro A setter_no_render)
  have MA: "A MouseMoveEvent"
    by (rule A) (simp add: no_render_def)
  have sp: "keeps P send_pending_mouse_move_event"
    using SA MA by (rule keeps_send_pending_mouse_move_event[OF st])
  have ud: "keeps P (update_interactor_event_data event)"
    using SA by (rule keeps_update_interactor_event_data[OF st])
  have ic: "keeps P (interactor_call KeyPressEvent)" "keeps P (interactor_call CharEvent)"
    "keeps P (interactor_call KeyReleaseEvent)"
    by (rule keeps_interactor_call[OF st], rule A, simp add: no_render_def)+
  have gk: "keeps P (getitem ''key'' (key event)
            (\<lambda>k s. if k \<noteq> ''Shift'' \<and> k \<noteq> ''Control'' \<and> k \<noteq> ''Alt''
                    then full_render s else Done s))"
    using k by (auto simp: keeps_def getitem_def)
  show "keeps P (on_keydown event)"
    unfolding on_keydown_def by (intro keeps_seq) (simp add: sp ud ic gk)
  show "keeps P (on_keyup event)"
    unfolding on_keyup_def by (intro keeps_seq) (simp add: sp ud ic gk)
qed

lemma modifier_key_no_render:
  assumes k: "key event = Some k" "k = ''Shift'' \<or> k = ''Control'' \<or> k = ''Alt''"
    and nm: "event_name event = ''keydown'' \<or> event_name event = ''keyup''"
  shows "extends_by no_render s (state_of (handle_interaction_event event s))"
proof -
  obtain e' r where R: "rescale (width s) (height s) event = (e', r)" by fastforce
  have e': "key e' = Some k" "event_name e' = event_name event"
    using rescale_keeps(2,4)[of "width s" "height s" event] R k by simp_all
  let ?P = "extends_by no_render s"
  note st = robust_extends_by[of no_render s]
  have 0: "?P (log_event e' s)" by (simp add: extends_by_def)
  have "keeps ?P (dispatch e')"
    using keeps_on_key_modifier[OF st _ e'(1) k(2)] nm e'(2)
    by (auto simp: keeps_def dispatch_def)
  then have "?P (state_of (try_except (dispatch e') (log_event e' s)))"
    by (rule keepsD[OF keeps_try_except[OF _ st] 0])
  with 0 R show ?thesis by (cases r) (simp_all add: handle_interaction_event_def)
qed

lemma other_key_renders:
  assumes h: "healthy s" and g: "\<not> (touching s \<and> touch_event event = None)"
    and rs: "snd (rescale (width s) (height s) event) = None"
    and k: "key event = Some k" "k \<noteq> ''Shift''" "k \<noteq> ''Control''" "k \<noteq> ''Alt''"
  shows "event_name event = ''keydown'' \<Longrightarrow>
           \<exists>s' pre post. handle_interaction_event event s = Done s' \<and>
             trace (env s') = trace (env s) @ pre
                                @ [KeyPressEvent, CharEvent, FullRenderRequested] @ post \<and>
             list_all is_move_injection pre \<and> list_all is_render_action post"
    and "event_name event = ''keyup'' \<Longrightarrow>
           \<exists>s' pre post. handle_interaction_event event s = Done s' \<and>
             trace (env s') = trace (env s) @ pre
                                @ [KeyReleaseEvent, FullRenderRequested] @ post \<and>
             list_all is_move_injection pre \<and> list_all is_render_action post"
proof -
  obtain e' where R: "rescale (width s) (height s) event = (e', None)"
    using rs by (cases "rescale (width s) (height s) event") auto
  have e': "key e' = Some k" "event_name e' = event_name event"
    "touch_event e' = touch_event event"
    using rescale_keeps(1,2,4)[of "width s" "height s" event] R k by simp_all
  define s0 where "s0 = log_event e' s"
  have h0: "healthy s0" using h by (simp add: s0_def)
  obtain s1 s2 pre where S: "send_pending_mouse_move_event s0 = Done s1"
    and U: "update_interactor_event_data e' s1 = Done s2" and h2: "healthy s2"
    and pre: "trace (env s2) = trace (env s0) @ pre" "list_all is_move_injection pre"
    using flush_update_healthy[OF h0, of e'] by blast
  have H: "handle_interaction_event event s = try_except (dispatch e') s0"
    using R by (simp add: handle_interaction_event_def s0_def)
  have t0: "trace (env s0) = trace (env s)" by (simp add: s0_def)
  {
    assume nm: "event_name event = ''keydown''"
    define s3 where "s3 = mark CharEvent (mark KeyPressEvent s2)"
    define s4 where "s4 = state_of (full_render s3)"
    have F: "full_render s3 = Done s4" unfolding s4_def by (rule full_render_Done)
    obtain post where post: "trace (env s4) = trace (env (mark FullRenderRequested s3)) @ post"
        "list_all is_render_action post"
      using full_render_extends[of s3] by (auto simp: extends_by_def s4_def)
    have "on_keydown e' s0 = Done s4"
      using h2 k(2,3,4)
      by (simp add: on_keydown_def S U interactor_call_healthy getitem_def e'(1)
          F[unfolded s3_def])
    then have "handle_interaction_event event s = Done s4"
      using g e' nm by (auto simp: H dispatch_def try_except_def s0_def)
    moreover have "trace (env s4) = trace (env s) @ pre
                     @ [KeyPressEvent, CharEvent, FullRenderRequested] @ post"
      using post(1) pre(1) t0 by (simp add: s3_def)
    ultimately show "\<exists>s' pre post. handle_interaction_event event s = Done s' \<and>
             trace (env s') = trace (env s) @ pre
                                @ [KeyPressEvent, CharEvent, FullRenderRequested] @ post \<and>
             list_all is_move_injection pre \<and> list_all is_render_action post"
      using pre(2) post(2) by blast
  }
  {
    assume nm: "event_name event = ''keyup''"
    define s3 where "s3 = mark KeyReleaseEvent s2"
    define s4 where "s4 = state_of (full_render s3)"
    have F: "full_render s3 = Done s4" unfolding s4_def by (rule full_render_Done)
    obtain post where post: "trace (env s4) = trace (env (mark FullRenderRequested s3)) @ post"
        "list_all is_render_action post"
      using full_render_extends[of s3] by (auto simp: extends_by_def s4_def)
    have "on_keyup e' s0 = Done s4"
      using h2 k(2,3,4)
      by (simp add: on_keyup_def S U interactor_call_healthy getitem_def e'(1)
          F[unfolded s3_def])
    then have "handle_interaction_event event s = Done s4"
      using g e' nm by (auto simp: H dispatch_def try_except_def s0_def)
    moreover have "trace (env s4) = trace (env s) @ pre
                     @ [KeyReleaseEvent, FullRenderRequested] @ post"
      using post(1) pre(1) t0 by (simp add: s3_def)
    ultimately show "\<exists>s' pre post. handle_interaction_event event s = Done s' \<and>
             trace (env s') = trace (env s) @ pre
                                @ [KeyReleaseEvent, FullRenderRequested] @ post \<and>
             list_all is_move_injection pre \<and> list_all is_render_action post"
      using pre(2) post(2) by blast
  }
qed

text \<open>
  C6. A \<open>keydown\<close> or \<open>keyup\<close> event whose key is \<open>Shift\<close>, \<open>Control\<close> or \<open>Alt\<close>
  adds to the trace, in every session and every world, nothing of a render: no request of
  a full or quick render and no call of the render path. In a world where nothing fails,
  a \<open>keydown\<close> of any other key that is handled (not dropped by the touch gate, not
  failing in the rescaling) injects \<open>KeyPressEvent\<close> and \<open>CharEvent\<close> and requests the
  full render right after them; a \<open>keyup\<close> injects \<open>KeyReleaseEvent\<close> and requests the
  full render right after it.
\<close>

theorem key_events_and_full_render:
  "(key event = Some k \<and> (k = ''Shift'' \<or> k = ''Control'' \<or> k = ''Alt'') \<and>
    (event_name event = ''keydown'' \<or> event_name event = ''keyup'') \<longrightarrow>
      (\<exists>xs. trace (env (state_of (handle_interaction_event event s))) = trace (env s) @ xs \<and>
            list_all no_render xs)) \<and>
   (healthy s \<and> \<not> (touching s \<and> touch_event event = None) \<and>
    snd (rescale (width s) (height s) event) = None \<and>
    key event = Some k \<and> k \<noteq> ''Shift'' \<and> k \<noteq> ''Control'' \<and> k \<noteq> ''Alt'' \<longrightarrow>
      (event_name event = ''keydown'' \<longrightarrow>
         (\<exists>s' pre post. handle_interaction_event event s = Done s' \<and>
             trace (env s') = trace (env s) @ pre
                                @ [KeyPressEvent, CharEvent, FullRenderRequested] @ post \<and>
             list_all is_move_injection pre \<and> list_all is_render_action post)) \<and>
      (event_name event = ''keyup'' \<longrightarrow>
         (\<exists>s' pre post. handle_interaction_event event s = Done s' \<and>
             trace (env s') = trace (env s) @ pre
                                @ [KeyReleaseEvent, FullRenderRequested] @ post \<and>
             list_all is_move_injection pre \<and> list_all is_render_action post)))"
  using modifier_key_no_render[of event k s, unfolded extends_by_def]
    other_key_renders[of s event k]
  by blast

theorem key_events_and_full_render_witness:
  "trace (env (state_of (handle_interaction_event (key_event ''keydown'' ''Shift'' 7) session0)))
     = trace (env session0) @
         [SetKeySym ''Shift_L'', SetRepeatCount 1, SetShiftKey False, SetControlKey False,
          SetAltKey False, KeyPressEvent, CharEvent] \<and>
   (\<exists>xs. trace (env (state_of (handle_interaction_event (key_event ''keyup'' ''Alt'' 7) session0)))
           = trace (env session0) @ xs \<and> list_all no_render xs) \<and>
   healthy session0 \<and>
   (\<exists>s' pre post.
      handle_interaction_event (key_event ''keydown'' ''a'' 7) session0 = Done s' \<and>
      trace (env s') = trace (env session0) @ pre
                         @ [KeyPressEvent, CharEvent, FullRenderRequested] @ post \<and>
      list_all is_move_injection pre \<and> list_all is_render_action post) \<and>
   (\<exists>s' pre post.
      handle_interaction_event (key_event ''keyup'' ''a'' 7) session0 = Done s' \<and>
      trace (env s') = trace (env session0) @ pre
                         @ [KeyReleaseEvent, FullRenderRequested] @ post \<and>
      list_all is_move_injection pre \<and> list_all is_render_action post)"
proof -
  have h: "healthy session0"
    by (simp add: healthy_def session0_def calm_world_def)
  have 1: "trace (env (state_of (handle_interaction_event
               (key_event ''keydown'' ''Shift'' 7) session0)))
     = trace (env session0) @
         [SetKeySym ''Shift_L'', SetRepeatCount 1, SetShiftKey False, SetControlKey False,
          SetAltKey False, KeyPressEvent, CharEvent]"
    by (simp add: unfold_handler session0_def calm_world_def key_event_def)
  have 2: "\<exists>xs. trace (env (state_of (handle_interaction_event
                  (key_event ''keyup'' ''Alt'' 7) session0)))
           = trace (env session0) @ xs \<and> list_all no_render xs"
    using key_events_and_full_render[of "key_event ''keyup'' ''Alt'' 7" "''Alt''" session0]
    by (simp add: key_event_def)
  have t: "\<not> touching session0" by (simp add: session0_def)
  have 3: "\<exists>s' pre post.
      handle_interaction_event (key_event ''keydown'' ''a'' 7) session0 = Done s' \<and>
      trace (env s') = trace (env session0) @ pre
                         @ [KeyPressEvent, CharEvent, FullRenderRequested] @ post \<and>
      list_all is_move_injection pre \<and> list_all is_render_action post"
    using key_events_and_full_render[of "key_event ''keydown'' ''a'' 7" "''a''" session0] h t
    by (simp add: key_event_def rescale_def)
  have 4: "\<exists>s' pre post.
      handle_interaction_event (key_event ''keyup'' ''a'' 7) session0 = Done s' \<and>
      trace (env s') = trace (env session0) @ pre
                         @ [KeyReleaseEvent, FullRenderRequested] @ post \<and>
      list_all is_move_injection pre \<and> list_all is_render_action post"
    using key_events_and_full_render[of "key_event ''keyup'' ''a'' 7" "''a''" session0] h t
    by (simp add: key_event_def rescale_def)
  from 1 2 h 3 4 show ?thesis by blast
qed

subsection \<open>C3: a drag coalesces its moves\<close>

lemma suppressed_simps [simp]:
  "renders_suppressed (mark a s) = renders_suppressed s"
  "renders_suppressed (tick s) = renders_suppressed s"
  "renders_suppressed (log_event e s) = renders_suppressed s"
  "renders_suppressed (s\<lparr>dragging := b\<rparr>) = renders_suppressed s"
  "renders_suppressed (s\<lparr>last_mouse_move_event := m\<rparr>) = renders_suppressed s"
  "renders_suppressed (s\<lparr>message_timestamp_offset := off\<rparr>) = renders_suppressed s"
  "renders_suppressed (s\<lparr>quick_render_delay_sec := d\<rparr>) = renders_suppressed s"
  "renders_suppressed (s\<lparr>age_of_processed_messages := ages\<rparr>) = renders_suppressed s"
  "renders_suppressed (s\<lparr>error := er\<rparr>) = renders_suppressed s"
  by (simp_all add: renders_suppressed_def mark_def tick_def)

lemma healthy_simps [simp]:
  "healthy (s\<lparr>message_timestamp_offset := off\<rparr>) = healthy s"
  "healthy (s\<lparr>quick_render_delay_sec := d\<rparr>) = healthy s"
  "healthy (s\<lparr>age_of_processed_messages := ages\<rparr>) = healthy s"
  "healthy (s\<lparr>error := er\<rparr>) = healthy s"
  by (simp_all add: healthy_def)

lemma calls_simps [simp]:
  "calls (mark a s)
     = calls s @ (if a = FullRenderRequested \<or> a = QuickRenderRequested then [] else [a])"
  "calls (tick s) = calls s"
  "calls (log_event e s) = calls s"
  "calls (s\<lparr>dragging := b\<rparr>) = calls s"
  "calls (s\<lparr>last_mouse_move_event := m\<rparr>) = calls s"
  "calls (s\<lparr>message_timestamp_offset := off\<rparr>) = calls s"
  "calls (s\<lparr>quick_render_delay_sec := d\<rparr>) = calls s"
  "calls (s\<lparr>age_of_processed_messages := ages\<rparr>) = calls s"
  "calls (s\<lparr>error := er\<rparr>) = calls s"
  by (simp_all add: calls_def)

lemma full_render_suppressed:
  "renders_suppressed s \<Longrightarrow> full_render s = Done (tick (mark FullRenderRequested s))"
  by (simp add: full_render_def renders_suppressed_def Let_def now_def mark_def tick_def)

lemma quick_render_suppressed:
  "renders_suppressed s \<Longrightarrow> quick_render s = Done (tick (mark QuickRenderRequested s))"
  by (simp add: quick_render_def renders_suppressed_def Let_def now_def mark_def tick_def)

lemma pointer_data_healthy:
  "healthy s \<Longrightarrow> name \<noteq> ''keydown'' \<Longrightarrow> name \<noteq> ''keyup'' \<Longrightarrow>
   update_interactor_event_data (pointer_event name x y b ts) s
     = Done (mark (SetEventPosition x (of_int (height s) - y)) s)"
  by (simp add: update_interactor_event_data_def set_position_data_def set_modifier_data_def
      try_except_def pointer_event_def ext_call_healthy render_window_def healthy_def)

lemma pointer_event_fields [simp]:
  "event_name (pointer_event name x y b ts) = name"
  "touch_event (pointer_event name x y b ts) = None"
  "button (pointer_event name x y b ts) = b"
  "timeStamp (pointer_event name x y b ts) = Some ts"
  by (simp_all add: pointer_event_def)

lemma mousedown_steady:
  assumes st: "steady s" and p: "last_mouse_move_event s = None"
    and b: "b = 0 \<or> b = 1 \<or> b = 2"
  shows "\<exists>s'. handle_interaction_event (pointer_event ''mousedown'' x y (Some b) ts) s = Done s' \<and>
           steady s' \<and> dragging s' \<and> last_mouse_move_event s' = None \<and>
           height s' = height s \<and>
           calls s' = calls s @ [SetEventPosition x (of_int (height s) - y), press_of b]"
proof -
  let ?e = "pointer_event ''mousedown'' x y (Some b) ts"
  define s0 where "s0 = (log_event ?e s)\<lparr>dragging := True\<rparr>"
  define s1 where "s1 = mark (SetEventPosition x (of_int (height s) - y)) s0"
  define s2 where "s2 = tick (mark FullRenderRequested (mark (press_of b) s1))"
  have h0: "healthy s0" "renders_suppressed s0" "\<not> touching s0" "last_mouse_move_event s0 = None"
    "height s0 = height s"
    using st p by (simp_all add: s0_def steady_def)
  have U: "update_interactor_event_data ?e s0 = Done s1"
    by (simp add: pointer_data_healthy[OF h0(1)] s1_def h0(5))
  have h1: "healthy s1" "renders_suppressed s1" using h0 by (simp_all add: s1_def)
  have B: "getitem ''button'' (Some b)
            (\<lambda>b s. if b = 0 then interactor_call LeftButtonPressEvent s
                    else if b = 2 then interactor_call RightButtonPressEvent s
                    else if b = 1 then interactor_call MiddleButtonPressEvent s
                    else Done s) s1 = Done (mark (press_of b) s1)"
    using b h1(1) by (auto simp: getitem_def press_of_def interactor_call_healthy)
  have F: "full_render (mark (press_of b) s1) = Done s2"
    using h1(2) by (simp add: full_render_suppressed s2_def)
  have "on_mousedown ?e (log_event ?e s) = Done s2"
    using h0(4)
    by (simp add: on_mousedown_def s0_def[symmetric] send_pending_mouse_move_event_def U B F)
  then have "handle_interaction_event ?e s = Done s2"
    using st by (simp add: handle_interaction_event_def dispatch_def try_except_def steady_def)
  moreover have "steady s2" "dragging s2" "last_mouse_move_event s2 = None"
    "height s2 = height s"
    "calls s2 = calls s @ [SetEventPosition x (of_int (height s) - y), press_of b]"
    using h0 by (simp_all add: s2_def s1_def steady_def s0_def press_of_def)
  ultimately show ?thesis by blast
qed

lemma mouseup_steady:
  assumes st: "steady s"
    and p: "last_mouse_move_event s = Some (pointer_event ''mousemove'' x2 y2 b2 t2)"
    and b: "b = 0 \<or> b = 1 \<or> b = 2"
  shows "\<exists>s'. handle_interaction_event (pointer_event ''mouseup'' x y (Some b) ts) s = Done s' \<and>
           steady s' \<and> \<not> dragging s' \<and> last_mouse_move_event s' = None \<and>
           height s' = height s \<and>
           calls s' = calls s @ [SetEventPosition x2 (of_int (height s) - y2), MouseMoveEvent,
                                 SetEventPosition x (of_int (height s) - y), release_of b]"
proof -
  let ?e = "pointer_event ''mouseup'' x y (Some b) ts"
  let ?m = "pointer_event ''mousemove'' x2 y2 b2 t2"
  define s0 where "s0 = log_event ?e s"
  define s1 where "s1 = (mark MouseMoveEvent
                          (mark (SetEventPosition x2 (of_int (height s) - y2)) s0))
                        \<lparr>last_mouse_move_event := None\<rparr>"
  define s2 where "s2 = mark (SetEventPosition x (of_int (height s) - y)) s1"
  define s3 where "s3 = (mark (release_of b) s2)\<lparr>dragging := False\<rparr>"
  define s4 where "s4 = tick (mark FullRenderRequested s3)"
  have h0: "healthy s0" "renders_suppressed s0" "\<not> touching s0"
    "last_mouse_move_event s0 = Some ?m" "height s0 = height s"
    using st p by (simp_all add: s0_def steady_def)
  have S: "send_pending_mouse_move_event s0 = Done s1"
    using h0 by (simp add: send_pending_mouse_move_event_def pointer_data_healthy
        interactor_call_healthy s1_def)
  have h1: "healthy s1" "renders_suppressed s1" "height s1 = height s"
    using h0 by (simp_all add: s1_def)
  have U: "update_interactor_event_data ?e s1 = Done s2"
    by (simp add: pointer_data_healthy[OF h1(1)] s2_def h1(3))
  have h2: "healthy s2" "renders_suppressed s2" using h1 by (simp_all add: s2_def)
  have B: "getitem ''button'' (Some b)
            (\<lambda>b s. if b = 0 then interactor_call LeftButtonReleaseEvent s
                    else if b = 2 then interactor_call RightButtonReleaseEvent s
                    else if b = 1 then interactor_call MiddleButtonReleaseEvent s
                    else Done s) s2 = Done (mark (release_of b) s2)"
    using b h2(1) by (auto simp: getitem_def release_of_def interactor_call_healthy)
  have F: "full_render s3 = Done s4"
    using h2(2) by (simp add: full_render_suppressed s4_def s3_def)
  have "on_mouseup ?e s0 = Done s4"
    by (simp add: on_mouseup_def S U B s3_def[symmetric] F)
  then have "handle_interaction_event ?e s = Done s4"
    using h0(3)
    by (simp add: handle_interaction_event_def dispatch_def try_except_def s0_def[symmetric])
  moreover have "steady s4" "\<not> dragging s4" "last_mouse_move_event s4 = None"
    "height s4 = height s"
    "calls s4 = calls s @ [SetEventPosition x2 (of_int (height s) - y2), MouseMoveEvent,
                           SetEventPosition x (of_int (height s) - y), release_of b]"
    using h0 by (simp_all add: s4_def s3_def s2_def s1_def steady_def s0_def release_of_def)
  ultimately show ?thesis by blast
qed

lemma core_simps [simp]:
  "core (tick s) = core s"
  "core (log_event e s) = core s"
  "core (s\<lparr>error := er\<rparr>) = core s"
  "core (s\<lparr>message_timestamp_offset := off\<rparr>) = core s"
  "core (s\<lparr>quick_render_delay_sec := d\<rparr>) = core s"
  "core (s\<lparr>age_of_processed_messages := ages\<rparr>) = core s"
  "core (mark QuickRenderRequested s) = core s"
  by (simp_all add: core_def steady_def)

lemma core_capture: "core (state_of (capture_timestamp_offset e s)) = core s"
  by (simp add: capture_timestamp_offset_def getitem_def split: option.splits)

lemma core_adapt: "core (state_of (adapt_render_delay e s)) = core s"
  by (simp add: adapt_render_delay_def getitem_def Let_def set_quick_render_delay_def
      split: option.splits)

lemma core_render_if_due:
  "renders_suppressed s \<Longrightarrow> core (state_of (render_if_due s)) = core s"
  by (simp add: render_if_due_def quick_render_suppressed)

lemma mousemove_steady:
  assumes st: "steady s" and d: "dragging s"
  shows "\<exists>s'. handle_interaction_event (pointer_event ''mousemove'' x y b ts) s = Done s' \<and>
           steady s' \<and> dragging s' \<and>
           last_mouse_move_event s' = Some (pointer_event ''mousemove'' x y b ts) \<and>
           height s' = height s \<and> calls s' = calls s"
proof -
  let ?e = "pointer_event ''mousemove'' x y b ts"
  define s0 where "s0 = log_event ?e s"
  define s1 where "s1 = state_of (capture_timestamp_offset ?e s0)"
  define s2 where "s2 = s1\<lparr>last_mouse_move_event := Some ?e\<rparr>"
  define s3 where "s3 = state_of (seq [adapt_render_delay ?e, render_if_due] s2)"
  have C: "capture_timestamp_offset ?e s0 = Done s1"
    by (simp add: s1_def capture_timestamp_offset_def getitem_def)
  have c1: "core s1 = core s" by (simp add: s1_def core_capture s0_def)
  then have c2: "core s2 = (True, False, True, Some ?e, height s, calls s)"
    using st d by (simp add: s2_def core_def steady_def healthy_def renders_suppressed_def calls_def)
  let ?P = "\<lambda>s'. core s' = (True, False, True, Some ?e, height s, calls s)"
  have kr: "keeps ?P render_if_due"
  proof (rule keepsI)
    fix sa assume a: "?P sa"
    then have "renders_suppressed sa" by (simp add: core_def steady_def)
    from core_render_if_due[OF this] a show "?P (state_of (render_if_due sa))" by simp
  qed
  have "keeps ?P (seq [adapt_render_delay ?e, render_if_due])"
    by (intro keeps_seq) (simp add: kr, simp add: keeps_def core_adapt)
  from keepsD[OF this c2] have c3: "?P s3" by (simp add: s3_def)
  have "on_mousemove ?e s0 = seq [adapt_render_delay ?e, render_if_due] s2"
    using c2 by (simp del: seq.simps add: on_mousemove_def C s2_def[symmetric] core_def
        seq.simps(2)[of "capture_timestamp_offset ?e"] seq.simps(2)[of "\<lambda>s. Done (s\<lparr>last_mouse_move_event := Some ?e\<rparr>)"]
        seq.simps(2)[of "\<lambda>s. if \<not> dragging s \<and> \<not> track_mouse_move s then Done s
                else seq [adapt_render_delay ?e, render_if_due] s"] seq.simps(1)
        split: result.splits)
  moreover have "\<not> touching s0" using st by (simp add: s0_def steady_def)
  ultimately have "\<exists>s'. handle_interaction_event ?e s = Done s' \<and> ?P s'"
    using c3
    by (cases "seq [adapt_render_delay ?e, render_if_due] s2")
       (simp_all add: handle_interaction_event_def dispatch_def try_except_def
          s0_def[symmetric] s3_def)
  then show ?thesis by (auto simp: core_def)
qed

text \<open>
  C3. In a session that is not touching and has no move pending, in a world where nothing
  fails and the rate limit drops every render: \<open>mousedown\<close> injects the position and the
  press of its button at once; the two \<open>mousemove\<close> events inject nothing, the pending
  move being the first event after the first and the second event after the second (the
  first is overwritten); \<open>mouseup\<close> injects the pending move, which is the second, at
  \<open>(x2, y2)\<close> (in the coordinates of the renderer, \<open>(x2, height - y2)\<close>), then its own
  position and the release of its button, and leaves no move pending and the drag ended.
  The position \<open>(x1, y1)\<close> is never injected.
\<close>

theorem drag_coalesces_moves:
  fixes s :: session and xd yd x1 y1 x2 y2 xu yu td t1 t2 tu :: real and b :: int
  defines "down \<equiv> DomEvent (pointer_event ''mousedown'' xd yd (Some b) td)"
    and "move1 \<equiv> DomEvent (pointer_event ''mousemove'' x1 y1 None t1)"
    and "move2 \<equiv> DomEvent (pointer_event ''mousemove'' x2 y2 None t2)"
    and "up \<equiv> DomEvent (pointer_event ''mouseup'' xu yu (Some b) tu)"
    and "h \<equiv> real_of_int (height s)"
  assumes hs: "healthy s" and rs: "renders_suppressed s" and nt: "\<not> touching s"
    and np: "last_mouse_move_event s = None" and b: "b = 0 \<or> b = 1 \<or> b = 2"
  shows "calls (run s [down]) = calls s @ [SetEventPosition xd (h - yd), press_of b] \<and>
         calls (run s [down, move1]) = calls (run s [down]) \<and>
         last_mouse_move_event (run s [down, move1])
           = Some (pointer_event ''mousemove'' x1 y1 None t1) \<and>
         calls (run s [down, move1, move2]) = calls (run s [down]) \<and>
         last_mouse_move_event (run s [down, move1, move2])
           = Some (pointer_event ''mousemove'' x2 y2 None t2) \<and>
         calls (run s [down, move1, move2, up])
           = calls (run s [down]) @
               [SetEventPosition x2 (h - y2), MouseMoveEvent,
                SetEventPosition xu (h - yu), release_of b] \<and>
         last_mouse_move_event (run s [down, move1, move2, up]) = None \<and>
         \<not> dragging (run s [down, move1, move2, up])"
proof -
  have st: "steady s" using hs rs nt by (simp add: steady_def)
  obtain s1 where 1: "handle_interaction_event (pointer_event ''mousedown'' xd yd (Some b) td) s
                        = Done s1"
    and f1: "steady s1" "dragging s1" "height s1 = height s"
      "calls s1 = calls s @ [SetEventPosition xd (h - yd), press_of b]"
    using mousedown_steady[OF st np b, of xd yd td] unfolding h_def by blast
  obtain s2 where 2: "handle_interaction_event (pointer_event ''mousemove'' x1 y1 None t1) s1
                        = Done s2"
    and f2: "steady s2" "dragging s2" "height s2 = height s" "calls s2 = calls s1"
      "last_mouse_move_event s2 = Some (pointer_event ''mousemove'' x1 y1 None t1)"
    using mousemove_steady[OF f1(1,2), of x1 y1 None t1] f1(3) by auto
  obtain s3 where 3: "handle_interaction_event (pointer_event ''mousemove'' x2 y2 None t2) s2
                        = Done s3"
    and f3: "steady s3" "dragging s3" "height s3 = height s" "calls s3 = calls s1"
      "last_mouse_move_event s3 = Some (pointer_event ''mousemove'' x2 y2 None t2)"
    using mousemove_steady[OF f2(1,2), of x2 y2 None t2] f2(3,4) by auto
  obtain s4 where 4: "handle_interaction_event (pointer_event ''mouseup'' xu yu (Some b) tu) s3
                        = Done s4"
    and f4: "\<not> dragging s4" "last_mouse_move_event s4 = None"
      "calls s4 = calls s1 @ [SetEventPosition x2 (h - y2), MouseMoveEvent,
                              SetEventPosition xu (h - yu), release_of b]"
    using mouseup_steady[OF f3(1,5) b, of xu yu tu] f3(3,4) unfolding h_def by auto
  have r: "run s [down] = s1" "run s [down, move1] = s2" "run s [down, move1, move2] = s3"
    "run s [down, move1, move2, up] = s4"
    by (simp_all add: down_def move1_def move2_def up_def 1 2 3 4)
  show ?thesis
    unfolding r using f1(4) f2(4,5) f3(4,5) f4 by simp
qed

theorem drag_coalesces_moves_witness:
  "healthy frozen_session \<and> renders_suppressed frozen_session \<and>
   calls (run frozen_session
            [DomEvent (pointer_event ''mousedown'' 10 20 (Some 0) 5),
             DomEvent (pointer_event ''mousemove'' 11 21 None 6),
             DomEvent (pointer_event ''mousemove'' 12 22 None 7),
             DomEvent (pointer_event ''mouseup'' 12 22 (Some 0) 8)])
     = [SetEventPosition 10 180, LeftButtonPressEvent,
        SetEventPosition 12 178, MouseMoveEvent,
        SetEventPosition 12 178, LeftButtonReleaseEvent] \<and>
   last_mouse_move_event (run frozen_session
            [DomEvent (pointer_event ''mousedown'' 10 20 (Some 0) 5),
             DomEvent (pointer_event ''mousemove'' 11 21 None 6)])
     = Some (pointer_event ''mousemove'' 11 21 None 6) \<and>
   last_mouse_move_event (run frozen_session
            [DomEvent (pointer_event ''mousedown'' 10 20 (Some 0) 5),
             DomEvent (pointer_event ''mousemove'' 11 21 None 6),
             DomEvent (pointer_event ''mousemove'' 12 22 None 7)])
     = Some (pointer_event ''mousemove'' 12 22 None 7)"
proof -
  have f: "healthy frozen_session" "renders_suppressed frozen_session"
    "\<not> touching frozen_session" "last_mouse_move_event frozen_session = None"
    "calls frozen_session = []" "height frozen_session = 200"
    by (simp_all add: frozen_session_def frozen_world_def session0_def calm_world_def
        healthy_def renders_suppressed_def throttle_due_def calls_def)
  from drag_coalesces_moves[OF f(1,2,3,4), of 0 10 20 5 11 21 6 12 22 7 12 22 8] f
  show ?thesis by (simp add: press_of_def release_of_def)
qed

end
